theory Spec2Isabelle
  imports Complex_Main "HOL-Library.Sublist" "HOL-Library.List_Lexorder" "HOL-Library.Char_ord"
begin

section \<open>JavaScript values used by the services\<close>

text \<open>
  Strings are \<^typ>\<open>string\<close>, compared and ordered character by character (the
  lexicographic order of \<open>List_Lexorder\<close> over \<open>Char_ord\<close>), as JavaScript compares
  strings code unit by code unit. Characters outside ASCII are left alone by every function
  below.
\<close>

subsection \<open>Thrown errors\<close>

text \<open>
  A thrown value is an error object with its \<open>name\<close> and its \<open>message\<close>.
  \<open>new Error(m)\<close> has the name \<open>Error\<close>; \<open>instanceof TypeError\<close> is read off the
  name, and every thrown value is an instance of \<open>Error\<close>.
\<close>

datatype js_error = JsError (err_name: string) (err_message: string)

abbreviation Error :: "string \<Rightarrow> js_error" where
  "Error m \<equiv> JsError ''Error'' m"

abbreviation TypeError :: "string \<Rightarrow> js_error" where
  "TypeError m \<equiv> JsError ''TypeError'' m"

definition instanceof_TypeError :: "js_error \<Rightarrow> bool" where
  "instanceof_TypeError e = (err_name e = ''TypeError'')"

subsection \<open>String helpers of the platform\<close>

definition toLowerCase_char :: "char \<Rightarrow> char" where
  "toLowerCase_char c =
     (case map_of (zip ''ABCDEFGHIJKLMNOPQRSTUVWXYZ'' ''abcdefghijklmnopqrstuvwxyz'') c of
        Some l \<Rightarrow> l
      | None \<Rightarrow> c)"

definition toLowerCase :: "string \<Rightarrow> string" where
  "toLowerCase s = map toLowerCase_char s"

text \<open>\<open>s.includes(n)\<close>: \<open>n\<close> occurs in \<open>s\<close> as a contiguous run.\<close>

fun includes_str :: "string \<Rightarrow> string \<Rightarrow> bool" where
  "includes_str [] n = (n = [])"
| "includes_str (c # cs) n = (prefix n (c # cs) \<or> includes_str cs n)"

text \<open>\<open>xs.join(sep)\<close> on an array of strings.\<close>

fun join :: "string \<Rightarrow> string list \<Rightarrow> string" where
  "join sep [] = []"
| "join sep [x] = x"
| "join sep (x # y # ys) = x @ sep @ join sep (y # ys)"

text \<open>Decimal rendering of a natural number, for an HTTP status and the parts of a date.\<close>

definition digit_char :: "nat \<Rightarrow> char" where
  "digit_char d = ''0123456789'' ! d"

fun decimal :: "nat \<Rightarrow> string" where
  "decimal n =
     (if 10 \<le> n then decimal (n div 10) @ [digit_char (n mod 10)] else [digit_char n])"

declare decimal.simps [simp del]

text \<open>
  \<open>s.replace(pat, rep)\<close> with a string pattern: the first occurrence of \<open>pat\<close> is
  replaced, and in the replacement \<open>$$\<close> stands for a dollar sign, \<open>$&\<close> for the match,
  \<open>$`\<close> for the text preceding it and \<open>$'\<close> for the text following it.
\<close>

fun expand_replacement :: "string \<Rightarrow> string \<Rightarrow> string \<Rightarrow> string \<Rightarrow> string" where
  "expand_replacement front matched back (a # b # rest) =
     (if a = CHR ''$'' \<and> b = CHR ''$'' then CHR ''$'' # expand_replacement front matched back rest
      else if a = CHR ''$'' \<and> b = CHR ''&'' then matched @ expand_replacement front matched back rest
      else if a = CHR ''$'' \<and> b = CHR 0x60 then front @ expand_replacement front matched back rest
      else if a = CHR ''$'' \<and> b = CHR 0x27 then back @ expand_replacement front matched back rest
      else a # expand_replacement front matched back (b # rest))"
| "expand_replacement front matched back rest = rest"

fun replace_from :: "string \<Rightarrow> string \<Rightarrow> string \<Rightarrow> string \<Rightarrow> string" where
  "replace_from front [] pat rep =
     (if pat = [] then front @ expand_replacement front pat [] rep else front)"
| "replace_from front (c # cs) pat rep =
     (if prefix pat (c # cs)
      then front @ expand_replacement front pat (drop (length pat) (c # cs)) rep
             @ drop (length pat) (c # cs)
      else replace_from (front @ [c]) cs pat rep)"

definition replace :: "string \<Rightarrow> string \<Rightarrow> string \<Rightarrow> string" where
  "replace s pat rep = replace_from [] s pat rep"

subsection \<open>JSON values\<close>

text \<open>
  A number that \<open>JSON.parse\<close> can produce is a finite double or, for a literal out
  of range, an infinity. A finite number is its value together with the text the platform
  prints for it (\<open>Number.prototype.toString\<close>, which switches to exponent form for
  large and small magnitudes); the text is taken as given. Negative zero is the value 0.
\<close>

datatype js_number = Finite rat string | PosInfinity | NegInfinity

text \<open>
  A value produced by \<open>response.json()\<close>. An object is the list of its own properties in
  the order \<open>Object.values\<close> and \<open>JSON.stringify\<close> enumerate them.
\<close>

datatype json =
    JNull
  | JBool bool
  | JNum js_number
  | JStr string
  | JArr "json list"
  | JObj "(string \<times> json) list"

text \<open>
  A number is falsy when it is zero. \<open>JSON.stringify\<close> prints a finite number as the
  platform prints it and an infinity as \<open>null\<close>; a template literal prints an infinity
  by name.
\<close>

definition number_truthy :: "js_number \<Rightarrow> bool" where
  "number_truthy n = (case n of Finite v txt \<Rightarrow> v \<noteq> 0 | _ \<Rightarrow> True)"

definition number_json :: "js_number \<Rightarrow> string" where
  "number_json n = (case n of Finite v txt \<Rightarrow> txt | _ \<Rightarrow> ''null'')"

definition number_text :: "js_number \<Rightarrow> string" where
  "number_text n =
     (case n of
        Finite v txt \<Rightarrow> txt
      | PosInfinity \<Rightarrow> ''Infinity''
      | NegInfinity \<Rightarrow> ''-Infinity'')"

text \<open>Truthiness, as \<open>if (v)\<close> and \<open>v && ...\<close> test it.\<close>

fun truthy :: "json \<Rightarrow> bool" where
  "truthy JNull = False"
| "truthy (JBool b) = b"
| "truthy (JNum n) = number_truthy n"
| "truthy (JStr s) = (s \<noteq> [])"
| "truthy (JArr xs) = True"
| "truthy (JObj kvs) = True"

text \<open>
  \<open>v.detail\<close> on a value that is not \<open>null\<close>: the own property of an object, and
  \<open>undefined\<close> (\<open>None\<close>) on everything else, since no prototype has a property
  of that name.
\<close>

fun prop_detail :: "json \<Rightarrow> json option" where
  "prop_detail (JObj kvs) = map_of kvs ''detail''"
| "prop_detail v = None"

definition truthy_opt :: "json option \<Rightarrow> bool" where
  "truthy_opt v = (case v of None \<Rightarrow> False | Some x \<Rightarrow> truthy x)"

text \<open>\<open>JSON.stringify\<close>, with the escapes of a quoted string.\<close>

definition hex_digit :: "nat \<Rightarrow> char" where
  "hex_digit d = ''0123456789abcdef'' ! d"

definition quote_char :: "char \<Rightarrow> string" where
  "quote_char c =
     (if c = CHR 0x22 then [CHR 0x5C, CHR 0x22]
      else if c = CHR 0x5C then [CHR 0x5C, CHR 0x5C]
      else if c = CHR 0x08 then [CHR 0x5C, CHR ''b'']
      else if c = CHR 0x09 then [CHR 0x5C, CHR ''t'']
      else if c = CHR 0x0A then [CHR 0x5C, CHR ''n'']
      else if c = CHR 0x0C then [CHR 0x5C, CHR ''f'']
      else if c = CHR 0x0D then [CHR 0x5C, CHR ''r'']
      else if (of_char c :: nat) < 32
        then [CHR 0x5C, CHR ''u'', CHR ''0'', CHR ''0'',
              hex_digit ((of_char c :: nat) div 16), hex_digit ((of_char c :: nat) mod 16)]
      else [c])"

definition quote_string :: "string \<Rightarrow> string" where
  "quote_string s = [CHR 0x22] @ concat (map quote_char s) @ [CHR 0x22]"

fun JSON_stringify :: "json \<Rightarrow> string" where
  "JSON_stringify JNull = ''null''"
| "JSON_stringify (JBool b) = (if b then ''true'' else ''false'')"
| "JSON_stringify (JNum n) = number_json n"
| "JSON_stringify (JStr s) = quote_string s"
| "JSON_stringify (JArr xs) = ''['' @ join '','' (map JSON_stringify xs) @ '']''"
| "JSON_stringify (JObj kvs) =
     ''{'' @ join '','' (map (\<lambda>(k, v). quote_string k @ '':'' @ JSON_stringify v) kvs) @ ''}''"

text \<open>
  The string a template literal makes of a value (\<open>`${v}`\<close>): a string is itself, an
  array is its elements joined by commas with \<open>null\<close> as the empty string, and every
  object is \<open>[object Object]\<close>.
\<close>

fun to_string :: "json \<Rightarrow> string" where
  "to_string JNull = ''null''"
| "to_string (JBool b) = (if b then ''true'' else ''false'')"
| "to_string (JNum n) = number_text n"
| "to_string (JStr s) = s"
| "to_string (JArr xs) =
     join '','' (map (\<lambda>x. if x = JNull then [] else to_string x) xs)"
| "to_string (JObj kvs) = ''[object Object]''"

subsection \<open>The outcome of a fetch\<close>

text \<open>
  \<open>fetch\<close> either rejects, or resolves with a response whose \<open>ok\<close> flag is false, or
  with one whose flag is true. The response is given by what its methods settle to:
  \<open>json()\<close> and \<open>text()\<close> for a failure, \<open>json()\<close> at the declared type for a
  success.
\<close>

datatype 'a fetch_outcome =
    NetworkFailure js_error
  | HttpFailure nat "js_error + json" "js_error + string"
  | HttpSuccess "js_error + 'a"

text \<open>
  The translation table \<open>t\<close> is a map from keys to strings; a key it lacks reads as
  \<open>undefined\<close>, and \<open>new Error(undefined)\<close> has the empty message.
\<close>

type_synonym translation_table = "string \<rightharpoonup> string"

definition message_of :: "string option \<Rightarrow> string" where
  "message_of m = (case m of None \<Rightarrow> [] | Some s \<Rightarrow> s)"

section \<open>The detection service\<close>

record 'm disease_info =
  predicted_disease :: string
  confidence_score :: rat

record 'm treatment_details =
  td_medicines :: "'m list option"
  td_precautions :: "string list option"
  td_causes :: "string list option"
  td_summary :: "string option"
  td_disclaimer :: "string option"

record 'm BackendDiseaseResponse =
  disease_info :: "'m disease_info"
  treatment_details :: "'m treatment_details"

record 'm DiseaseDetectionResult =
  diseaseName :: string
  medicines :: "'m list"
  precautions :: "string list"
  causes :: "string list"
  summary :: string
  disclaimer :: string
  isHealthy :: bool
  isCropDetected :: bool

text \<open>\<open>x || []\<close> and \<open>x || ''\<close> on a field that may be absent.\<close>

definition or_empty :: "'a list option \<Rightarrow> 'a list" where
  "or_empty x = (case x of None \<Rightarrow> [] | Some v \<Rightarrow> v)"

definition mapBackendResponseToDiseaseResult ::
  "'m BackendDiseaseResponse \<Rightarrow> translation_table \<Rightarrow> 'm DiseaseDetectionResult" where
  "mapBackendResponseToDiseaseResult data t =
     (let diseaseName = predicted_disease (disease_info data);
          td = treatment_details data;
          isHealthy = includes_str (toLowerCase diseaseName) ''healthy'';
          isCropDetected = (\<not> includes_str (toLowerCase diseaseName) ''no crop detected'')
      in \<lparr> diseaseName = diseaseName,
           medicines = or_empty (td_medicines td),
           precautions = or_empty (td_precautions td),
           causes = or_empty (td_causes td),
           summary = or_empty (td_summary td),
           disclaimer = or_empty (td_disclaimer td),
           isHealthy = isHealthy,
           isCropDetected = isCropDetected \<rparr>)"

text \<open>
  The message built from a truthy \<open>detail\<close>: an array is checked first, then a string,
  then anything else.
\<close>

definition detail_entry :: "json \<Rightarrow> string" where
  "detail_entry d = (case d of JStr s \<Rightarrow> s | _ \<Rightarrow> JSON_stringify d)"

definition detail_message :: "json \<Rightarrow> string" where
  "detail_message detail =
     (case detail of
        JArr ds \<Rightarrow> join '' '' (map detail_entry ds)
      | JStr s \<Rightarrow> s
      | _ \<Rightarrow> JSON_stringify detail)"

text \<open>The body of the \<open>try\<close> block, from the settled fetch on.\<close>

definition detectDisease_try ::
  "translation_table \<Rightarrow> 'm BackendDiseaseResponse fetch_outcome \<Rightarrow>
     js_error + 'm DiseaseDetectionResult" where
  "detectDisease_try t outcome =
     (case outcome of
        NetworkFailure e \<Rightarrow> Inl e
      | HttpFailure status json_result text_result \<Rightarrow>
          (case json_result of
             Inl e \<Rightarrow>
               (case text_result of
                  Inl e' \<Rightarrow> Inl e'
                | Inr errorText \<Rightarrow>
                    Inl (Error (''HTTP error! status: '' @ decimal status
                                  @ '', message: '' @ errorText)))
           | Inr parsed \<Rightarrow>
               if status = 400 \<and> truthy parsed \<and> truthy_opt (prop_detail parsed)
               then (case prop_detail parsed of
                       Some detail \<Rightarrow> Inl (Error (detail_message detail))
                     | None \<Rightarrow> Inl (Error (JSON_stringify parsed)))
               else Inl (Error (JSON_stringify parsed)))
      | HttpSuccess body \<Rightarrow>
          (case body of
             Inl e \<Rightarrow> Inl e
           | Inr data \<Rightarrow> Inr (mapBackendResponseToDiseaseResult data t)))"

text \<open>
  The \<open>catch\<close> block of \<open>detectDisease\<close>: a failed connection gets the localized
  connection message, an error with a message is thrown again, and an error without one
  becomes the generic message. Reading \<open>replace\<close> off a missing translation throws.
\<close>

definition connection_error :: "string \<Rightarrow> translation_table \<Rightarrow> js_error" where
  "connection_error API_BASE_URL t =
     (case t ''errorApiConnection'' of
        None \<Rightarrow> TypeError ''Cannot read properties of undefined (reading 'replace')''
      | Some s \<Rightarrow> Error (replace s ''{url}'' API_BASE_URL))"

definition detectDisease_catch :: "string \<Rightarrow> translation_table \<Rightarrow> js_error \<Rightarrow> js_error" where
  "detectDisease_catch API_BASE_URL t error =
     (if instanceof_TypeError error \<and> err_message error = ''Failed to fetch''
      then connection_error API_BASE_URL t
      else if err_message error \<noteq> [] then error
      else Error (message_of (t ''errorApi'')))"

definition detectDisease ::
  "string \<Rightarrow> translation_table \<Rightarrow> 'm BackendDiseaseResponse fetch_outcome \<Rightarrow>
     js_error + 'm DiseaseDetectionResult" where
  "detectDisease API_BASE_URL t outcome =
     (if API_BASE_URL = [] then Inl (Error ''API_BASE_URL is not configured in constants.ts'')
      else (case detectDisease_try t outcome of
              Inl error \<Rightarrow> Inl (detectDisease_catch API_BASE_URL t error)
            | Inr result \<Rightarrow> Inr result))"


text \<open>
  The flags as the specification words them: a name contains a substring
  case-insensitively when some contiguous run of the name equals it up to letter case.
\<close>

definition eq_ignoring_case :: "string \<Rightarrow> string \<Rightarrow> bool" where
  "eq_ignoring_case a b = (toLowerCase a = toLowerCase b)"

definition contains_ignoring_case :: "string \<Rightarrow> string \<Rightarrow> bool" where
  "contains_ignoring_case s sub =
     (\<exists>pre mid post. s = pre @ mid @ post \<and> eq_ignoring_case mid sub)"

definition name_only :: "string \<Rightarrow> unit BackendDiseaseResponse" where
  "name_only n =
     \<lparr> disease_info = \<lparr> predicted_disease = n, confidence_score = 1 \<rparr>,
       treatment_details =
         \<lparr> td_medicines = None, td_precautions = None, td_causes = None,
           td_summary = None, td_disclaimer = None \<rparr> \<rparr>"

section \<open>The chat service\<close>

text \<open>
  \<open>Object.values(data)\<close>: the property values of an object in enumeration order, the
  elements of an array, the characters of a string, nothing for a number or a boolean,
  and a \<open>TypeError\<close> for \<open>null\<close>.
\<close>

fun Object_values :: "json \<Rightarrow> js_error + json list" where
  "Object_values JNull = Inl (TypeError ''Cannot convert undefined or null to object'')"
| "Object_values (JObj kvs) = Inr (map snd kvs)"
| "Object_values (JArr xs) = Inr xs"
| "Object_values (JStr s) = Inr (map (\<lambda>c. JStr [c]) s)"
| "Object_values (JBool b) = Inr []"
| "Object_values (JNum n) = Inr []"

text \<open>
  What the failure branch calls \<open>parsedError\<close>: the parsed body, or the body's text
  when it is not JSON.
\<close>

definition parsedError_of :: "js_error + json \<Rightarrow> js_error + string \<Rightarrow> js_error + json" where
  "parsedError_of json_result text_result =
     (case json_result of
        Inr parsed \<Rightarrow> Inr parsed
      | Inl e \<Rightarrow> (case text_result of Inl e' \<Rightarrow> Inl e' | Inr txt \<Rightarrow> Inr (JStr txt)))"

definition chat_error_detail :: "json \<Rightarrow> string" where
  "chat_error_detail parsedError =
     (case (if truthy parsedError then prop_detail parsedError else None) of
        Some detail \<Rightarrow> if truthy detail then JSON_stringify detail else to_string parsedError
      | None \<Rightarrow> to_string parsedError)"

definition unexpected_format :: js_error where
  "unexpected_format = Error ''Unexpected chat response format from backend.''"

text \<open>The body of the \<open>try\<close> block of \<open>sendMessageToChat\<close>, from the settled fetch on.\<close>

definition sendMessageToChat_try :: "json fetch_outcome \<Rightarrow> js_error + string" where
  "sendMessageToChat_try outcome =
     (case outcome of
        NetworkFailure e \<Rightarrow> Inl e
      | HttpFailure status json_result text_result \<Rightarrow>
          (case parsedError_of json_result text_result of
             Inl e \<Rightarrow> Inl e
           | Inr parsedError \<Rightarrow>
               Inl (Error (''HTTP error! status: '' @ decimal status
                             @ '', details: '' @ chat_error_detail parsedError)))
      | HttpSuccess body \<Rightarrow>
          (case body of
             Inl e \<Rightarrow> Inl e
           | Inr data \<Rightarrow>
               (case Object_values data of
                  Inl e \<Rightarrow> Inl e
                | Inr responseValues \<Rightarrow>
                    (case responseValues of
                       JStr reply # rest \<Rightarrow> Inr reply
                     | _ \<Rightarrow> Inl unexpected_format))))"

text \<open>
  The \<open>catch\<close> block of \<open>sendMessageToChat\<close>: a failed connection gets the localized
  connection message, and every other error is replaced by the localized chat error.
\<close>

definition sendMessageToChat_catch :: "string \<Rightarrow> translation_table \<Rightarrow> js_error \<Rightarrow> js_error" where
  "sendMessageToChat_catch API_BASE_URL t error =
     (if instanceof_TypeError error \<and> err_message error = ''Failed to fetch''
      then connection_error API_BASE_URL t
      else Error (message_of (t ''chatError'')))"

definition sendMessageToChat ::
  "string \<Rightarrow> translation_table \<Rightarrow> json fetch_outcome \<Rightarrow> js_error + string" where
  "sendMessageToChat API_BASE_URL t outcome =
     (if API_BASE_URL = [] then Inl (Error ''API_BASE_URL is not configured in constants.ts'')
      else (case sendMessageToChat_try outcome of
              Inl error \<Rightarrow> Inl (sendMessageToChat_catch API_BASE_URL t error)
            | Inr reply \<Rightarrow> Inr reply))"

text \<open>
  The reply as the specification words it: the first value of the response object that
  is a string, if there is one.
\<close>

fun string_values :: "json list \<Rightarrow> string list" where
  "string_values [] = []"
| "string_values (JStr s # vs) = s # string_values vs"
| "string_values (v # vs) = string_values vs"

definition first_string_value :: "(string \<times> json) list \<Rightarrow> string option" where
  "first_string_value kvs =
     (case string_values (map snd kvs) of [] \<Rightarrow> None | s # rest \<Rightarrow> Some s)"

definition english_table :: translation_table where
  "english_table =
     [''chatError'' \<mapsto> ''Sorry, I am having trouble responding right now.'',
      ''errorApi'' \<mapsto> ''An error occurred while analysing the image.'',
      ''today'' \<mapsto> ''Today'',
      ''tomorrow'' \<mapsto> ''Tomorrow'',
      ''dayAfterTomorrow'' \<mapsto> ''Day After Tomorrow'']"

section \<open>The weather forecast\<close>

record weather_condition =
  weather_description :: string
  weather_icon :: string

record forecast_item =
  dt_txt :: string
  main_temp :: rat
  weather :: "weather_condition list"

record WeatherInfo =
  day :: "string option"
  temp :: int
  condition :: string
  icon :: string

record weather_state =
  weatherData :: "WeatherInfo list"
  loading :: bool
  error :: "string option"

text \<open>\<open>Math.round\<close>: the nearest integer, a half going up.\<close>

definition Math_round :: "rat \<Rightarrow> int" where
  "Math_round x = \<lfloor>x + 1 / 2\<rfloor>"

text \<open>\<open>item.dt_txt.split(' ')[0]\<close>: the text up to the first space.\<close>

definition date_of :: "forecast_item \<Rightarrow> string" where
  "date_of item = takeWhile (\<lambda>c. c \<noteq> CHR '' '') (dt_txt item)"

text \<open>
  \<open>dailyForecasts\<close> is a plain object: a list of its own properties in insertion
  order. Reading a key gives the own property, or what \<open>Object.prototype\<close> holds under
  that name, or \<open>undefined\<close>; the first two are truthy.
\<close>

definition Object_prototype_names :: "string list" where
  "Object_prototype_names =
     [''constructor'', ''hasOwnProperty'', ''isPrototypeOf'', ''propertyIsEnumerable'',
      ''toLocaleString'', ''toString'', ''valueOf'', ''__proto__'',
      ''__defineGetter__'', ''__defineSetter__'', ''__lookupGetter__'', ''__lookupSetter__'']"

datatype picked_entry = Entry forecast_item | Prototype_value | Null_entry

definition get_property :: "(string \<times> forecast_item) list \<Rightarrow> string \<Rightarrow> picked_entry" where
  "get_property obj k =
     (case map_of obj k of
        Some item \<Rightarrow> Entry item
      | None \<Rightarrow> if k \<in> set Object_prototype_names then Prototype_value else Null_entry)"

text \<open>Only the first forecast of each day is stored.\<close>

definition store_first :: "(string \<times> forecast_item) list \<Rightarrow> forecast_item \<Rightarrow>
    (string \<times> forecast_item) list" where
  "store_first daily item =
     (if get_property daily (date_of item) = Null_entry
      then daily @ [(date_of item, item)]
      else daily)"

definition dailyForecasts :: "forecast_item list \<Rightarrow> (string \<times> forecast_item) list" where
  "dailyForecasts items = foldl store_first [] items"

text \<open>
  A \<open>Date\<close> is given by the calendar date \<open>toISOString\<close> reads off it, and \<open>toKey\<close>
  is the date part of that rendering: four digits for a year up to 9999, a plus sign and
  six digits beyond.
\<close>

record utc_date =
  year :: nat
  month :: nat
  day_of_month :: nat

definition pad :: "nat \<Rightarrow> string \<Rightarrow> string" where
  "pad w s = replicate (w - length s) (CHR ''0'') @ s"

definition toKey :: "utc_date \<Rightarrow> string" where
  "toKey d =
     (if year d \<le> 9999 then pad 4 (decimal (year d))
      else ''+'' @ pad 6 (decimal (year d)))
     @ ''-'' @ pad 2 (decimal (month d))
     @ ''-'' @ pad 2 (decimal (day_of_month d))"

definition availableKeys :: "(string \<times> forecast_item) list \<Rightarrow> string list" where
  "availableKeys daily = sort (map fst daily)"

text \<open>
  One round of the loop over the target keys, on the pair of \<open>picked\<close> and
  \<open>usedKeys\<close>. A key that \<open>find\<close> returns is used only when it is truthy, that is
  when it is not the empty string.
\<close>

definition push_key :: "(string \<times> forecast_item) list \<Rightarrow> picked_entry list \<times> string set \<Rightarrow>
    string \<Rightarrow> picked_entry list \<times> string set" where
  "push_key daily st k = (fst st @ [get_property daily k], insert k (snd st))"

definition pick_any :: "(string \<times> forecast_item) list \<Rightarrow> picked_entry list \<times> string set \<Rightarrow>
    picked_entry list \<times> string set" where
  "pick_any daily st =
     (case find (\<lambda>k. k \<notin> snd st) (availableKeys daily) of
        Some anyKey \<Rightarrow>
          if anyKey \<noteq> [] then push_key daily st anyKey else (fst st @ [Null_entry], snd st)
      | None \<Rightarrow> (fst st @ [Null_entry], snd st))"

definition pick_one :: "(string \<times> forecast_item) list \<Rightarrow> picked_entry list \<times> string set \<Rightarrow>
    string \<Rightarrow> picked_entry list \<times> string set" where
  "pick_one daily st tk =
     (if get_property daily tk \<noteq> Null_entry \<and> tk \<notin> snd st then push_key daily st tk
      else (case find (\<lambda>k. tk \<le> k \<and> k \<notin> snd st) (availableKeys daily) of
              Some candidateKey \<Rightarrow>
                if candidateKey \<noteq> [] then push_key daily st candidateKey
                else pick_any daily st
            | None \<Rightarrow> pick_any daily st))"

definition pick_loop :: "(string \<times> forecast_item) list \<Rightarrow> string list \<Rightarrow>
    picked_entry list \<times> string set" where
  "pick_loop daily targetKeys = foldl (pick_one daily) ([], {}) targetKeys"

definition picked :: "utc_date list \<Rightarrow> forecast_item list \<Rightarrow> picked_entry list" where
  "picked dayDates items = fst (pick_loop (dailyForecasts items) (map toKey dayDates))"

text \<open>
  The label of a slot; \<open>weekday_long\<close> is the platform's long weekday name of a date
  in the chosen language.
\<close>

definition dayLabel :: "translation_table \<Rightarrow> (utc_date \<Rightarrow> string) \<Rightarrow> utc_date list \<Rightarrow>
    nat \<Rightarrow> string option" where
  "dayLabel t weekday_long dayDates idx =
     (if idx = 0 then t ''today''
      else if idx = 1 then t ''tomorrow''
      else (case t ''dayAfterTomorrow'' of
              Some label \<Rightarrow> if label \<noteq> [] then Some label
                             else Some (weekday_long (dayDates ! idx))
            | None \<Rightarrow> Some (weekday_long (dayDates ! idx))))"

definition format_entry :: "translation_table \<Rightarrow> (utc_date \<Rightarrow> string) \<Rightarrow> utc_date list \<Rightarrow>
    nat \<times> picked_entry \<Rightarrow> js_error + WeatherInfo" where
  "format_entry t weekday_long dayDates p =
     (case snd p of
        Null_entry \<Rightarrow>
          Inr \<lparr> day = dayLabel t weekday_long dayDates (fst p), temp = 0,
                condition = [], icon = ''01d'' \<rparr>
      | Prototype_value \<Rightarrow>
          Inl (TypeError ''Cannot read properties of undefined (reading 'temp')'')
      | Entry item \<Rightarrow>
          (case weather item of
             [] \<Rightarrow> Inl (TypeError ''Cannot read properties of undefined (reading 'description')'')
           | w # ws \<Rightarrow>
               Inr \<lparr> day = dayLabel t weekday_long dayDates (fst p),
                     temp = Math_round (main_temp item),
                     condition = weather_description w, icon = weather_icon w \<rparr>))"

text \<open>A \<open>map\<close> whose callback may throw stops at the first throw.\<close>

fun collect :: "('e + 'a) list \<Rightarrow> 'e + 'a list" where
  "collect [] = Inr []"
| "collect (Inl e # rs) = Inl e"
| "collect (Inr x # rs) = (case collect rs of Inl e \<Rightarrow> Inl e | Inr xs \<Rightarrow> Inr (x # xs))"

definition formattedData :: "translation_table \<Rightarrow> (utc_date \<Rightarrow> string) \<Rightarrow> utc_date list \<Rightarrow>
    forecast_item list \<Rightarrow> js_error + WeatherInfo list" where
  "formattedData t weekday_long dayDates items =
     collect (map (format_entry t weekday_long dayDates)
                  (enumerate 0 (picked dayDates items)))"

text \<open>
  \<open>fetchWeatherData\<close> from the settled fetch on, as a change of the component's state;
  \<open>dayDates\<close> holds the three dates \<open>today\<close>, \<open>tomorrow\<close> and \<open>dayAfter\<close>.
\<close>

definition fetchWeatherData :: "string \<Rightarrow> translation_table \<Rightarrow> (utc_date \<Rightarrow> string) \<Rightarrow>
    utc_date \<times> utc_date \<times> utc_date \<Rightarrow> forecast_item list fetch_outcome \<Rightarrow>
    weather_state \<Rightarrow> weather_state" where
  "fetchWeatherData WEATHER_API_KEY t weekday_long dates outcome st =
     (if WEATHER_API_KEY = []
      then st \<lparr> loading := False, error := t ''weatherErrorNoKey'' \<rparr>
      else (case outcome of
              HttpSuccess (Inr items) \<Rightarrow>
                (case formattedData t weekday_long
                        [fst dates, fst (snd dates), snd (snd dates)] items of
                   Inr formatted \<Rightarrow>
                     st \<lparr> weatherData := take 3 formatted, loading := False, error := None \<rparr>
                 | Inl err \<Rightarrow> st \<lparr> loading := False, error := t ''weatherErrorApi'' \<rparr>)
            | _ \<Rightarrow> st \<lparr> loading := False, error := t ''weatherErrorApi'' \<rparr>))"

text \<open>
  A raw entry as the weather service sends it: the timestamp starts with a calendar date
  \<open>YYYY-MM-DD\<close>, and there is at least one weather condition.
\<close>

definition is_digit :: "char \<Rightarrow> bool" where
  "is_digit c = (c \<in> set ''0123456789'')"

definition is_date_key :: "string \<Rightarrow> bool" where
  "is_date_key k =
     (length k = 10
      \<and> list_all is_digit (take 4 k) \<and> k ! 4 = CHR ''-''
      \<and> list_all is_digit (take 2 (drop 5 k)) \<and> k ! 7 = CHR ''-''
      \<and> list_all is_digit (drop 8 k))"

definition wf_item :: "forecast_item \<Rightarrow> bool" where
  "wf_item item = (is_date_key (date_of item) \<and> weather item \<noteq> [])"

text \<open>The first raw entry of a calendar date, which is the one the grouping keeps.\<close>

definition first_of_date :: "forecast_item list \<Rightarrow> string \<Rightarrow> forecast_item option" where
  "first_of_date items k = find (\<lambda>item. date_of item = k) items"

definition entry_date :: "picked_entry \<Rightarrow> string option" where
  "entry_date e = (case e of Entry item \<Rightarrow> Some (date_of item) | _ \<Rightarrow> None)"


text \<open>
  The key one round of the loop settles on, if any: the target key itself, else the first
  unused key from the target key on, else the first unused key.
\<close>

definition any_key :: "(string \<times> forecast_item) list \<Rightarrow> string set \<Rightarrow> string option" where
  "any_key daily used =
     (case find (\<lambda>k. k \<notin> used) (availableKeys daily) of
        Some anyKey \<Rightarrow> if anyKey \<noteq> [] then Some anyKey else None
      | None \<Rightarrow> None)"

definition chosen_key :: "(string \<times> forecast_item) list \<Rightarrow> string set \<Rightarrow> string \<Rightarrow>
    string option" where
  "chosen_key daily used tk =
     (if get_property daily tk \<noteq> Null_entry \<and> tk \<notin> used then Some tk
      else (case find (\<lambda>k. tk \<le> k \<and> k \<notin> used) (availableKeys daily) of
              Some candidateKey \<Rightarrow>
                if candidateKey \<noteq> [] then Some candidateKey else any_key daily used
            | None \<Rightarrow> any_key daily used))"

definition picked_dates :: "picked_entry list \<Rightarrow> string list" where
  "picked_dates es = List.map_filter entry_date es"

text \<open>
  What every round of the loop keeps true: the used keys are the dates of the entries
  picked so far, no date was picked twice, every picked entry is a stored one, and a
  \<open>null\<close> was pushed only when every stored key was in use.
\<close>

definition pick_invariant :: "(string \<times> forecast_item) list \<Rightarrow>
    picked_entry list \<times> string set \<Rightarrow> bool" where
  "pick_invariant daily st =
     (set (picked_dates (fst st)) = snd st
      \<and> distinct (picked_dates (fst st))
      \<and> (\<forall>e \<in> set (fst st).
            e = Null_entry \<or> (\<exists>item. e = Entry item \<and> (date_of item, item) \<in> set daily))
      \<and> ([] \<notin> fst ` set daily \<longrightarrow>
           (\<forall>i < length (fst st). fst st ! i = Null_entry \<longrightarrow>
              fst ` set daily \<subseteq> set (picked_dates (take i (fst st))))))"

section \<open>The camera of the disease detector\<close>

datatype facing = environment | user


record camera_options =
  deviceId :: "string option"
  facing :: "facing option"

text \<open>
  A media stream is the list of its tracks, each a handle into the platform's store of
  track states; \<open>track.stop()\<close> ends a track and does nothing to an ended one.
\<close>

datatype readyState = live | ended

type_synonym MediaStream = "nat list"

type_synonym track_store = "nat \<Rightarrow> readyState"

record detector_state =
  stream :: "MediaStream option"
  isCameraOpen :: bool
  camera_error :: "string option"
  cameraFacing :: facing

definition stop :: "nat \<Rightarrow> track_store \<Rightarrow> track_store" where
  "stop track store = store (track := ended)"

text \<open>
  \<open>closeCamera\<close> reads the stream its closure captured, which is the first argument
  here, and then clears the state.
\<close>

definition closeCamera :: "MediaStream option \<Rightarrow> track_store \<times> detector_state \<Rightarrow>
    track_store \<times> detector_state" where
  "closeCamera captured p =
     ((case captured of
         Some tracks \<Rightarrow> fold stop tracks (fst p)
       | None \<Rightarrow> fst p),
      (snd p) \<lparr> stream := None, isCameraOpen := False \<rparr>)"











section \<open>Sample inputs\<close>

text \<open>
  The error bodies and the chat responses that the specification names, a base URL, and
  responses that separate the first value of an object from its first string value.
\<close>

definition sample_url :: string where
  "sample_url = ''http://localhost:8000''"

definition leaf_detail_body :: json where
  "leaf_detail_body =
     JObj [(''detail'',
            JStr ''No valid plant leaf detected. Please upload a clear image of a plant leaf.'')]"

definition field_required_entry :: json where
  "field_required_entry =
     JObj [(''loc'', JArr [JStr ''file'']), (''msg'', JStr ''field required'')]"

definition field_required_body :: json where
  "field_required_body = JObj [(''detail'', JArr [field_required_entry])]"

definition empty_detail_body :: json where
  "empty_detail_body = JObj [(''detail'', JStr [])]"

definition no_entries_body :: json where
  "no_entries_body = JObj [(''detail'', JArr [])]"

definition large_number_body :: json where
  "large_number_body = JObj [(''detail'', JNum (Finite (10 ^ 21) ''1e+21''))]"

definition reply_response :: json where
  "reply_response = JObj [(''reply'', JStr ''Apply fungicide weekly'')]"

definition late_string_response :: json where
  "late_string_response = JObj [(''status'', JNum (Finite 200 ''200'')), (''reply'', JStr ''Apply fungicide weekly'')]"

definition no_string_response :: json where
  "no_string_response = JObj [(''status'', JNum (Finite 200 ''200''))]"

text \<open>
  Three dates, the labels of \<open>english_table\<close>, and forecast lists for them: one that
  spans the three dates, and one that starts a day late.
\<close>

definition sample_key :: string where
  "sample_key = ''0123456789abcdef''"

definition sample_today :: utc_date where
  "sample_today = \<lparr> year = 2025, month = 1, day_of_month = 15 \<rparr>"

definition sample_tomorrow :: utc_date where
  "sample_tomorrow = \<lparr> year = 2025, month = 1, day_of_month = 16 \<rparr>"

definition sample_dayAfter :: utc_date where
  "sample_dayAfter = \<lparr> year = 2025, month = 1, day_of_month = 17 \<rparr>"

definition sample_weekday :: "utc_date \<Rightarrow> string" where
  "sample_weekday d = ''Friday''"

definition raw_entry :: "string \<Rightarrow> rat \<Rightarrow> string \<Rightarrow> string \<Rightarrow> forecast_item" where
  "raw_entry stamp degrees text code =
     \<lparr> dt_txt = stamp, main_temp = degrees,
       weather = [\<lparr> weather_description = text, weather_icon = code \<rparr>] \<rparr>"

definition three_day_list :: "forecast_item list" where
  "three_day_list =
     [raw_entry ''2025-01-15 09:00:00'' (43 / 2) ''scattered clouds'' ''03d'',
      raw_entry ''2025-01-15 12:00:00'' 24 ''clear sky'' ''01d'',
      raw_entry ''2025-01-16 00:00:00'' (187 / 10) ''light rain'' ''10n'',
      raw_entry ''2025-01-17 00:00:00'' (-3 / 4) ''snow'' ''13n'']"

definition late_list :: "forecast_item list" where
  "late_list =
     [raw_entry ''2025-01-17 00:00:00'' (-3 / 4) ''snow'' ''13n'',
      raw_entry ''2025-01-16 00:00:00'' (187 / 10) ''light rain'' ''10n'',
      raw_entry ''2025-01-16 03:00:00'' 19 ''light rain'' ''10n'']"

definition initial_weather :: weather_state where
  "initial_weather = \<lparr> weatherData = [], loading = True, error = None \<rparr>"

text \<open>A detector whose camera is closed, and one holding a stream of two live tracks.\<close>

definition closed_detector :: detector_state where
  "closed_detector =
     \<lparr> stream = None, isCameraOpen = False, camera_error = None, cameraFacing = environment \<rparr>"

definition open_detector :: detector_state where
  "open_detector =
     \<lparr> stream = Some [0, 1], isCameraOpen = True, camera_error = None, cameraFacing = user \<rparr>"


section \<open>Properties of the detection service\<close>

lemma includes_str_sublist: "includes_str s n = sublist n s"
  by (induction s) (auto simp: sublist_Cons_right)

lemma sublist_map_iff:
  "sublist n (map f s) = (\<exists>pre mid post. s = pre @ mid @ post \<and> map f mid = n)"
proof
  assume "sublist n (map f s)"
  then obtain ps ss where "map f s = ps @ n @ ss"
    by (auto simp: sublist_def)
  then show "\<exists>pre mid post. s = pre @ mid @ post \<and> map f mid = n"
    by (metis map_eq_append_conv)
next
  assume "\<exists>pre mid post. s = pre @ mid @ post \<and> map f mid = n"
  then show "sublist n (map f s)"
    unfolding sublist_def by auto blast
qed

lemma includes_lower_iff:
  "toLowerCase sub = sub \<Longrightarrow>
     includes_str (toLowerCase s) sub = contains_ignoring_case s sub"
  unfolding includes_str_sublist contains_ignoring_case_def eq_ignoring_case_def toLowerCase_def
  by (simp add: sublist_map_iff)

lemma lower_healthy: "toLowerCase ''healthy'' = ''healthy''"
  by (simp add: toLowerCase_def toLowerCase_char_def)

lemma lower_no_crop: "toLowerCase ''no crop detected'' = ''no crop detected''"
  by (simp add: toLowerCase_def toLowerCase_char_def)

text \<open>
  Claim C1. On every success response, \<open>isHealthy\<close> is true exactly when the predicted
  disease name contains \<open>healthy\<close> case-insensitively, and \<open>isCropDetected\<close> is false
  exactly when the name contains \<open>no crop detected\<close> case-insensitively. Each flag
  depends on its own substring only, so a name with both substrings gets
  \<open>isHealthy = true\<close> and \<open>isCropDetected = false\<close>.
\<close>

theorem normalizer_flags:
  "isHealthy (mapBackendResponseToDiseaseResult data t)
     = contains_ignoring_case (predicted_disease (disease_info data)) ''healthy''
   \<and> isCropDetected (mapBackendResponseToDiseaseResult data t)
     = (\<not> contains_ignoring_case (predicted_disease (disease_info data)) ''no crop detected'')"
  by (simp add: mapBackendResponseToDiseaseResult_def Let_def
        includes_lower_iff [OF lower_healthy] includes_lower_iff [OF lower_no_crop])

lemma both_flags_eval:
  "isHealthy (mapBackendResponseToDiseaseResult (name_only ''No Crop Detected, Healthy'') t)
   \<and> \<not> isCropDetected
         (mapBackendResponseToDiseaseResult (name_only ''No Crop Detected, Healthy'') t)"
  by (simp add: mapBackendResponseToDiseaseResult_def name_only_def Let_def
        toLowerCase_def toLowerCase_char_def)

theorem normalizer_flags_witness:
  "isHealthy (mapBackendResponseToDiseaseResult
                (name_only ''No Crop Detected, Healthy'') english_table)
   \<and> \<not> isCropDetected (mapBackendResponseToDiseaseResult
                (name_only ''No Crop Detected, Healthy'') english_table)
   \<and> contains_ignoring_case ''No Crop Detected, Healthy'' ''healthy''
   \<and> contains_ignoring_case ''No Crop Detected, Healthy'' ''no crop detected''"
  using normalizer_flags [of "name_only ''No Crop Detected, Healthy''" english_table]
    both_flags_eval [of english_table]
  by (simp add: name_only_def)

lemma detect_rethrows:
  "m \<noteq> [] \<Longrightarrow> detectDisease_catch API_BASE_URL t (Error m) = Error m"
  by (simp add: detectDisease_catch_def instanceof_TypeError_def)

lemma detect_try_detail:
  assumes "prop_detail parsed = Some detail" and "truthy detail"
  shows "detectDisease_try t (HttpFailure 400 (Inr parsed) text_result)
           = Inl (Error (detail_message detail))"
proof -
  from assms(1) have "truthy parsed"
    by (cases parsed) simp_all
  with assms show ?thesis
    by (simp add: detectDisease_try_def truthy_opt_def)
qed

lemma detect_try_other_status:
  "status \<noteq> 400 \<Longrightarrow>
     detectDisease_try t (HttpFailure status (Inr parsed) text_result)
       = Inl (Error (JSON_stringify parsed))"
  by (simp add: detectDisease_try_def)

lemma detect_try_falsy_detail:
  "\<not> truthy_opt (prop_detail parsed) \<Longrightarrow>
     detectDisease_try t (HttpFailure status (Inr parsed) text_result)
       = Inl (Error (JSON_stringify parsed))"
  by (simp add: detectDisease_try_def)

lemma detail_message_cases:
  "(\<forall>s. detail = JStr s \<longrightarrow> detail_message detail = s)
   \<and> (\<forall>ds. detail = JArr ds \<longrightarrow>
          detail_message detail
            = join '' '' (map (\<lambda>d. case d of JStr s \<Rightarrow> s | _ \<Rightarrow> JSON_stringify d) ds))
   \<and> ((\<forall>s. detail \<noteq> JStr s) \<and> (\<forall>ds. detail \<noteq> JArr ds) \<longrightarrow>
          detail_message detail = JSON_stringify detail)"
proof -
  have "detail_entry = (\<lambda>d. case d of JStr s \<Rightarrow> s | _ \<Rightarrow> JSON_stringify d)"
    by (rule ext) (simp add: detail_entry_def)
  then show ?thesis
    by (cases detail) (simp_all add: detail_message_def)
qed

text \<open>
  Claim C2, amended. When the detection request gets the status 400 with a JSON body
  whose \<open>detail\<close> field is truthy, and the message below is not empty, the error raised
  by \<open>detectDisease\<close> has that message: the detail itself when it is a string, the
  entries joined by single spaces (entries that are not strings stringified as JSON)
  when it is an array, and the JSON stringification of the detail otherwise.
\<close>

theorem detect_error_message_400:
  assumes "API_BASE_URL \<noteq> []"
    and "prop_detail parsed = Some detail"
    and "truthy detail"
    and "detail_message detail \<noteq> []"
  shows "detectDisease API_BASE_URL t (HttpFailure 400 (Inr parsed) text_result)
           = Inl (Error (detail_message detail))
         \<and> (\<forall>s. detail = JStr s \<longrightarrow> detail_message detail = s)
         \<and> (\<forall>ds. detail = JArr ds \<longrightarrow>
                detail_message detail
                  = join '' '' (map (\<lambda>d. case d of JStr s \<Rightarrow> s | _ \<Rightarrow> JSON_stringify d) ds))
         \<and> ((\<forall>s. detail \<noteq> JStr s) \<and> (\<forall>ds. detail \<noteq> JArr ds) \<longrightarrow>
                detail_message detail = JSON_stringify detail)"
proof -
  have "detectDisease API_BASE_URL t (HttpFailure 400 (Inr parsed) text_result)
          = Inl (Error (detail_message detail))"
    using assms
    by (simp add: detectDisease_def detect_try_detail detect_rethrows)
  then show ?thesis
    using detail_message_cases [of detail] by simp
qed

lemma field_required_text:
  "JSON_stringify field_required_entry
     = concat [''{'', [CHR 0x22], ''loc'', [CHR 0x22], '':['', [CHR 0x22], ''file'', [CHR 0x22],
               ''],'', [CHR 0x22], ''msg'', [CHR 0x22], '':'', [CHR 0x22], ''field required'',
               [CHR 0x22], ''}'']"
  by (simp add: field_required_entry_def quote_string_def quote_char_def)

theorem detect_error_message_400_witness:
  "detectDisease sample_url english_table (HttpFailure 400 (Inr leaf_detail_body) (Inr []))
     = Inl (Error ''No valid plant leaf detected. Please upload a clear image of a plant leaf.'')
   \<and> detectDisease sample_url english_table (HttpFailure 400 (Inr field_required_body) (Inr []))
     = Inl (Error (JSON_stringify field_required_entry))
   \<and> detectDisease sample_url english_table (HttpFailure 400 (Inr large_number_body) (Inr []))
     = Inl (Error ''1e+21'')"
proof -
  have url: "sample_url \<noteq> []"
    by (simp add: sample_url_def)
  have entry: "JSON_stringify field_required_entry \<noteq> []"
    by (simp add: field_required_text)
  have "detectDisease sample_url english_table (HttpFailure 400 (Inr leaf_detail_body) (Inr []))
          = Inl (Error (detail_message
              (JStr ''No valid plant leaf detected. Please upload a clear image of a plant leaf.'')))"
    using detect_error_message_400 [OF url, of leaf_detail_body _ english_table "Inr []"]
    by (simp add: leaf_detail_body_def detail_message_def)
  moreover have "detectDisease sample_url english_table
                   (HttpFailure 400 (Inr field_required_body) (Inr []))
          = Inl (Error (detail_message (JArr [field_required_entry])))"
    using detect_error_message_400 [OF url, of field_required_body _ english_table "Inr []"] entry
    by (simp add: field_required_body_def detail_message_def detail_entry_def
          field_required_entry_def)
  moreover have "detectDisease sample_url english_table
                   (HttpFailure 400 (Inr large_number_body) (Inr []))
          = Inl (Error (detail_message (JNum (Finite (10 ^ 21) ''1e+21''))))"
    using detect_error_message_400 [OF url, of large_number_body _ english_table "Inr []"]
    by (simp add: large_number_body_def detail_message_def number_truthy_def number_json_def)
  ultimately show ?thesis
    by (simp add: detail_message_def detail_entry_def field_required_entry_def number_json_def)
qed

text \<open>
  The claim as stated fails in three ways. A status other than 400 (here 422, with the
  array body the specification names) raises the stringification of the whole body, not
  the message of its detail; an empty detail string under the status 400 does the same;
  and a detail that is the empty array under the status 400 raises the generic message of
  the translation table, not the empty concatenation.
\<close>

theorem detect_error_message_counterexample:
  "detectDisease sample_url english_table (HttpFailure 422 (Inr field_required_body) (Inr []))
     = Inl (Error (JSON_stringify field_required_body))
   \<and> JSON_stringify field_required_body \<noteq> detail_message (JArr [field_required_entry])
   \<and> detectDisease sample_url english_table (HttpFailure 400 (Inr empty_detail_body) (Inr []))
     = Inl (Error (JSON_stringify empty_detail_body))
   \<and> JSON_stringify empty_detail_body \<noteq> detail_message (JStr [])
   \<and> detectDisease sample_url english_table (HttpFailure 400 (Inr no_entries_body) (Inr []))
     = Inl (Error ''An error occurred while analysing the image.'')
   \<and> detail_message (JArr []) = []"
proof -
  have a: "JSON_stringify field_required_body \<noteq> []"
    by (simp add: field_required_body_def)
  have b: "JSON_stringify empty_detail_body \<noteq> []"
    by (simp add: empty_detail_body_def)
  have 1: "detectDisease sample_url english_table
             (HttpFailure 422 (Inr field_required_body) (Inr []))
           = Inl (Error (JSON_stringify field_required_body))"
    using a by (simp add: detectDisease_def detect_try_other_status detect_rethrows sample_url_def)
  have 2: "JSON_stringify field_required_body \<noteq> detail_message (JArr [field_required_entry])"
    by (simp add: field_required_body_def detail_message_def detail_entry_def
          field_required_entry_def quote_string_def quote_char_def)
  have 3: "detectDisease sample_url english_table
             (HttpFailure 400 (Inr empty_detail_body) (Inr []))
           = Inl (Error (JSON_stringify empty_detail_body))"
    using b
    by (simp add: detectDisease_def detect_try_falsy_detail detect_rethrows sample_url_def
          empty_detail_body_def truthy_opt_def)
  have 4: "JSON_stringify empty_detail_body \<noteq> detail_message (JStr [])"
    using b by (simp add: detail_message_def)
  have 5: "detectDisease sample_url english_table
             (HttpFailure 400 (Inr no_entries_body) (Inr []))
           = Inl (Error ''An error occurred while analysing the image.'')"
    by (simp add: detectDisease_def detectDisease_try_def detectDisease_catch_def
          instanceof_TypeError_def sample_url_def no_entries_body_def truthy_opt_def
          detail_message_def message_of_def english_table_def)
  have 6: "detail_message (JArr []) = []"
    by (simp add: detail_message_def)
  from 1 2 3 4 5 6 show ?thesis
    by blast
qed

section \<open>Properties of the chat service\<close>

lemma chat_try_object:
  "sendMessageToChat_try (HttpSuccess (Inr (JObj kvs)))
     = (case map snd kvs of JStr reply # rest \<Rightarrow> Inr reply | _ \<Rightarrow> Inl unexpected_format)"
  by (simp add: sendMessageToChat_try_def)

lemma chat_catch_generic:
  "sendMessageToChat_catch API_BASE_URL t unexpected_format = Error (message_of (t ''chatError''))"
  by (simp add: sendMessageToChat_catch_def unexpected_format_def instanceof_TypeError_def)

lemma chat_try_resolves_iff:
  "(sendMessageToChat_try (HttpSuccess (Inr (JObj kvs))) = Inr reply)
     = (\<exists>k rest. kvs = (k, JStr reply) # rest)"
proof (cases kvs)
  case Nil
  then show ?thesis
    by (simp add: chat_try_object)
next
  case (Cons p rest)
  obtain k v where p: "p = (k, v)"
    by (cases p)
  show ?thesis
    unfolding Cons p chat_try_object
    by (cases v) simp_all
qed

lemma string_values_empty_hd:
  "string_values vs = [] \<Longrightarrow> (case vs of JStr reply # rest \<Rightarrow> Inr reply | _ \<Rightarrow> Inl e) = Inl e"
proof (cases vs)
  case Nil
  then show ?thesis by simp
next
  case (Cons v rest)
  assume "string_values vs = []"
  with Cons show ?thesis
    by (cases v) simp_all
qed

text \<open>
  Claim C3, amended. \<open>send\<close> resolves on a chat success response object exactly when
  the first property value of the object is a string, and it resolves to that value; for
  the response \<open>{reply: Apply fungicide weekly}\<close> it resolves to
  \<open>Apply fungicide weekly\<close>.
\<close>

theorem chat_reply_is_first_value:
  assumes "API_BASE_URL \<noteq> []"
  shows "(sendMessageToChat API_BASE_URL t (HttpSuccess (Inr (JObj kvs))) = Inr reply)
           = (\<exists>k rest. kvs = (k, JStr reply) # rest)"
proof -
  have "(sendMessageToChat API_BASE_URL t (HttpSuccess (Inr (JObj kvs))) = Inr reply)
          = (sendMessageToChat_try (HttpSuccess (Inr (JObj kvs))) = Inr reply)"
    using assms by (simp add: sendMessageToChat_def split: sum.splits)
  then show ?thesis
    by (simp add: chat_try_resolves_iff)
qed

theorem chat_reply_is_first_value_witness:
  "sendMessageToChat sample_url english_table (HttpSuccess (Inr reply_response))
     = Inr ''Apply fungicide weekly''"
proof -
  have "sample_url \<noteq> []"
    by (simp add: sample_url_def)
  from chat_reply_is_first_value [OF this, of english_table
      "[(''reply'', JStr ''Apply fungicide weekly'')]" "''Apply fungicide weekly''"]
  show ?thesis
    by (simp add: reply_response_def)
qed

text \<open>
  The claim as stated fails on an object whose first value is not a string while a
  later one is: the first string value exists, and \<open>send\<close> fails.
\<close>

theorem chat_reply_counterexample:
  "first_string_value [(''status'', JNum (Finite 200 ''200'')), (''reply'', JStr ''Apply fungicide weekly'')]
     = Some ''Apply fungicide weekly''
   \<and> sendMessageToChat sample_url english_table (HttpSuccess (Inr late_string_response))
     = Inl (Error ''Sorry, I am having trouble responding right now.'')"
  by (simp add: first_string_value_def late_string_response_def sendMessageToChat_def
        chat_try_object chat_catch_generic sample_url_def message_of_def english_table_def)

text \<open>
  Claim C4, amended. On a chat success response object with no string-valued property
  \<open>send\<close> fails: the \<open>try\<close> block raises the unexpected-response-format error, the
  \<open>catch\<close> block replaces it, and the error surfaced to the caller is the generic chat
  error, whose message is the \<open>chatError\<close> entry of the translation table.
\<close>

theorem chat_no_string_value_fails:
  assumes "API_BASE_URL \<noteq> []"
    and "first_string_value kvs = None"
  shows "sendMessageToChat_try (HttpSuccess (Inr (JObj kvs))) = Inl unexpected_format
         \<and> sendMessageToChat API_BASE_URL t (HttpSuccess (Inr (JObj kvs)))
             = Inl (Error (message_of (t ''chatError'')))"
proof -
  from assms(2) have "string_values (map snd kvs) = []"
    by (simp add: first_string_value_def split: list.splits)
  then have raised: "sendMessageToChat_try (HttpSuccess (Inr (JObj kvs))) = Inl unexpected_format"
    unfolding chat_try_object by (rule string_values_empty_hd)
  with assms(1) show ?thesis
    by (simp add: sendMessageToChat_def chat_catch_generic)
qed

theorem chat_no_string_value_fails_witness:
  "first_string_value [(''status'', JNum (Finite 200 ''200''))] = None
   \<and> sendMessageToChat_try (HttpSuccess (Inr no_string_response)) = Inl unexpected_format
   \<and> sendMessageToChat sample_url english_table (HttpSuccess (Inr no_string_response))
       = Inl (Error ''Sorry, I am having trouble responding right now.'')"
proof -
  have url: "sample_url \<noteq> []"
    by (simp add: sample_url_def)
  have none: "first_string_value [(''status'', JNum (Finite 200 ''200''))] = None"
    by (simp add: first_string_value_def)
  from chat_no_string_value_fails [OF url none, of english_table] none
  show ?thesis
    by (simp add: no_string_response_def message_of_def english_table_def)
qed

text \<open>
  The claim as stated fails on the object \<open>{status: 200}\<close>: it has no string value, and
  the error that reaches the caller is not the unexpected-response-format error.
\<close>

theorem chat_unexpected_format_counterexample:
  "first_string_value [(''status'', JNum (Finite 200 ''200''))] = None
   \<and> sendMessageToChat sample_url english_table (HttpSuccess (Inr no_string_response))
       = Inl (Error ''Sorry, I am having trouble responding right now.'')
   \<and> Error ''Sorry, I am having trouble responding right now.'' \<noteq> unexpected_format"
proof -
  have "sendMessageToChat sample_url english_table (HttpSuccess (Inr no_string_response))
          = Inl (Error ''Sorry, I am having trouble responding right now.'')"
    by (simp add: no_string_response_def sendMessageToChat_def chat_try_object
          chat_catch_generic sample_url_def message_of_def english_table_def)
  then show ?thesis
    by (simp add: first_string_value_def unexpected_format_def)
qed

section \<open>Properties of the forecast\<close>

subsection \<open>Date keys\<close>

lemma decimal_nonempty: "decimal n \<noteq> []"
  by (subst decimal.simps) simp

lemma digit_char_digit: "d < 10 \<Longrightarrow> digit_char d \<in> set ''0123456789''"
  unfolding digit_char_def by (rule nth_mem) simp

lemma decimal_digits: "set (decimal n) \<subseteq> set ''0123456789''"
proof (induction n rule: decimal.induct)
  case (1 n)
  show ?case
  proof (cases "10 \<le> n")
    case True
    have "digit_char (n mod 10) \<in> set ''0123456789''"
      by (rule digit_char_digit) simp
    with 1 True show ?thesis
      by (subst decimal.simps) simp
  next
    case False
    then have "digit_char n \<in> set ''0123456789''"
      by (intro digit_char_digit) simp
    with False show ?thesis
      by (subst decimal.simps) simp
  qed
qed

lemma hd_pad: "s \<noteq> [] \<Longrightarrow> hd (pad w s) \<in> insert (CHR ''0'') (set s)"
  by (cases "w - length s") (simp_all add: pad_def)

lemma pad_nonempty: "s \<noteq> [] \<Longrightarrow> pad w s \<noteq> []"
  by (simp add: pad_def)

lemma hd_pad_decimal: "hd (pad w (decimal n)) \<in> set ''0123456789''"
  using hd_pad [OF decimal_nonempty, of w n] decimal_digits [of n] by auto

lemma toKey_head: "toKey d \<noteq> [] \<and> hd (toKey d) \<in> set ''0123456789+''"
proof (cases "year d \<le> 9999")
  case True
  then have "hd (toKey d) = hd (pad 4 (decimal (year d)))"
    by (simp add: toKey_def pad_nonempty decimal_nonempty)
  with True hd_pad_decimal [of 4 "year d"] show ?thesis
    by (auto simp: toKey_def)
next
  case False
  then show ?thesis
    by (simp add: toKey_def)
qed

lemma head_not_prototype:
  "k \<noteq> [] \<Longrightarrow> hd k \<in> set ''0123456789+'' \<Longrightarrow> k \<notin> set Object_prototype_names"
  by (cases k) (auto simp: Object_prototype_names_def)

lemma toKey_plain: "toKey d \<noteq> []" "toKey d \<notin> set Object_prototype_names"
  using toKey_head [of d] head_not_prototype [of "toKey d"] by simp_all

lemma date_key_plain:
  assumes "is_date_key k"
  shows "k \<noteq> []" and "k \<notin> set Object_prototype_names"
proof -
  from assms show ne: "k \<noteq> []"
    by (auto simp: is_date_key_def)
  then obtain c cs where k: "k = c # cs"
    by (cases k) auto
  from assms have "is_digit c"
    by (simp add: is_date_key_def k)
  then have "hd k \<in> set ''0123456789+''"
    by (auto simp: k is_digit_def)
  with ne show "k \<notin> set Object_prototype_names"
    by (rule head_not_prototype)
qed

lemma map_of_store_first:
  "map_of (store_first acc a) k
     = (case map_of acc k of
          Some v \<Rightarrow> Some v
        | None \<Rightarrow> if k = date_of a \<and> k \<notin> set Object_prototype_names then Some a else None)"
  by (auto simp: store_first_def get_property_def map_add_def split: option.splits if_splits)

lemma map_of_store:
  "map_of (foldl store_first acc items) k
     = (case map_of acc k of
          Some v \<Rightarrow> Some v
        | None \<Rightarrow> if k \<in> set Object_prototype_names then None
                  else find (\<lambda>item. date_of item = k) items)"
proof (induction items arbitrary: acc)
  case Nil
  then show ?case
    by (simp split: option.splits)
next
  case (Cons a items)
  have "map_of (foldl store_first acc (a # items)) k
          = (case map_of (store_first acc a) k of
               Some v \<Rightarrow> Some v
             | None \<Rightarrow> if k \<in> set Object_prototype_names then None
                       else find (\<lambda>item. date_of item = k) items)"
    by (simp add: Cons.IH)
  also have "\<dots> = (case map_of acc k of
                      Some v \<Rightarrow> Some v
                    | None \<Rightarrow> if k \<in> set Object_prototype_names then None
                              else find (\<lambda>item. date_of item = k) (a # items))"
    by (auto simp: map_of_store_first split: option.splits)
  finally show ?case .
qed

lemma distinct_store_first:
  "distinct (map fst acc) \<Longrightarrow> distinct (map fst (store_first acc a))"
  by (auto simp: store_first_def get_property_def map_of_eq_None_iff split: option.splits if_splits)

lemma distinct_store:
  "distinct (map fst acc) \<Longrightarrow> distinct (map fst (foldl store_first acc items))"
  by (induction items arbitrary: acc) (simp_all add: distinct_store_first)

lemma map_of_daily:
  "map_of (dailyForecasts items) k
     = (if k \<in> set Object_prototype_names then None else first_of_date items k)"
  by (simp add: dailyForecasts_def map_of_store first_of_date_def)

lemma distinct_daily: "distinct (map fst (dailyForecasts items))"
  by (simp add: dailyForecasts_def distinct_store)

lemma first_of_date_Some:
  "first_of_date items k = Some item \<Longrightarrow> item \<in> set items \<and> date_of item = k"
  by (auto simp: first_of_date_def find_Some_iff)

lemma first_of_date_None: "(first_of_date items k = None) = (k \<notin> date_of ` set items)"
  by (auto simp: first_of_date_def find_None_iff)

lemma daily_member:
  "((k, item) \<in> set (dailyForecasts items))
     = (k \<notin> set Object_prototype_names \<and> first_of_date items k = Some item)"
proof -
  have "((k, item) \<in> set (dailyForecasts items)) = (map_of (dailyForecasts items) k = Some item)"
    using distinct_daily [of items] by simp
  then show ?thesis
    by (simp add: map_of_daily)
qed

lemma daily_keys:
  "set (map fst (dailyForecasts items))
     = {k. k \<notin> set Object_prototype_names \<and> k \<in> date_of ` set items}"
proof -
  have "(k \<in> fst ` set (dailyForecasts items))
          = (k \<notin> set Object_prototype_names \<and> k \<in> date_of ` set items)" for k
  proof -
    have "(k \<in> fst ` set (dailyForecasts items)) = (map_of (dailyForecasts items) k \<noteq> None)"
      by (simp add: map_of_eq_None_iff)
    also have "\<dots> = (k \<notin> set Object_prototype_names \<and> first_of_date items k \<noteq> None)"
      by (simp add: map_of_daily)
    also have "\<dots> = (k \<notin> set Object_prototype_names \<and> k \<in> date_of ` set items)"
      by (simp add: first_of_date_None)
    finally show ?thesis .
  qed
  then show ?thesis
    by auto
qed

lemma keys_set: "set (availableKeys daily) = fst ` set daily"
  by (simp add: availableKeys_def)

lemma keys_sorted: "sorted (availableKeys daily)"
  by (simp add: availableKeys_def)

lemma daily_key_entry:
  assumes "k \<in> fst ` set (dailyForecasts items)"
  shows "\<exists>item. (k, item) \<in> set (dailyForecasts items)
           \<and> get_property (dailyForecasts items) k = Entry item \<and> date_of item = k"
proof -
  from assms obtain item where mem: "(k, item) \<in> set (dailyForecasts items)"
    by auto
  then have "map_of (dailyForecasts items) k = Some item"
    using distinct_daily [of items] by simp
  then have "get_property (dailyForecasts items) k = Entry item"
    by (simp add: get_property_def)
  moreover from mem have "date_of item = k"
    using first_of_date_Some [of items k item] by (simp add: daily_member)
  ultimately show ?thesis
    using mem by blast
qed

lemma get_property_plain:
  "k \<notin> set Object_prototype_names \<Longrightarrow>
     get_property (dailyForecasts items) k
       = (case first_of_date items k of Some item \<Rightarrow> Entry item | None \<Rightarrow> Null_entry)"
  by (simp add: get_property_def map_of_daily)

lemma pick_one_chosen:
  "pick_one daily st tk
     = (case chosen_key daily (snd st) tk of
          Some k \<Rightarrow> push_key daily st k
        | None \<Rightarrow> (fst st @ [Null_entry], snd st))"
  by (simp add: pick_one_def chosen_key_def pick_any_def any_key_def split: option.splits)

lemma find_Some_member: "find P xs = Some x \<Longrightarrow> P x \<and> x \<in> set xs"
  by (induction xs) (auto split: if_splits)

lemma any_key_Some:
  "any_key daily used = Some k \<Longrightarrow> k \<notin> used \<and> k \<in> fst ` set daily"
  by (auto simp: any_key_def keys_set [symmetric] split: option.splits if_splits
      dest: find_Some_member)

lemma any_key_None:
  assumes "[] \<notin> fst ` set daily" and "any_key daily used = None"
  shows "fst ` set daily \<subseteq> used"
proof (cases "find (\<lambda>k. k \<notin> used) (availableKeys daily)")
  case None
  then show ?thesis
    by (auto simp: find_None_iff keys_set)
next
  case (Some a)
  with assms(2) have "a = []"
    by (simp add: any_key_def split: if_splits)
  with find_Some_member [OF Some] assms(1) show ?thesis
    by (simp add: keys_set)
qed

lemma chosen_key_Some:
  assumes "chosen_key (dailyForecasts items) used tk = Some k"
    and "tk \<notin> set Object_prototype_names"
  shows "k \<notin> used \<and> k \<in> fst ` set (dailyForecasts items)"
proof (cases "get_property (dailyForecasts items) tk \<noteq> Null_entry \<and> tk \<notin> used")
  case True
  with assms(1) have k: "k = tk"
    by (simp add: chosen_key_def)
  from True assms(2) have "first_of_date items tk \<noteq> None"
    by (auto simp: get_property_plain split: option.splits)
  then have "tk \<in> fst ` set (dailyForecasts items)"
    using assms(2) daily_keys [of items] by (simp add: first_of_date_None)
  with True k show ?thesis
    by simp
next
  case False
  show ?thesis
  proof (cases "find (\<lambda>k. tk \<le> k \<and> k \<notin> used) (availableKeys (dailyForecasts items))")
    case None
    with False assms(1) have "any_key (dailyForecasts items) used = Some k"
      by (auto simp: chosen_key_def split: if_splits)
    then show ?thesis
      by (rule any_key_Some)
  next
    case (Some c)
    show ?thesis
    proof (cases "c = []")
      case True
      with False Some assms(1) have "any_key (dailyForecasts items) used = Some k"
        by (auto simp: chosen_key_def split: if_splits)
      then show ?thesis
        by (rule any_key_Some)
    next
      case nonempty: False
      with False Some assms(1) have "c = k"
        by (auto simp: chosen_key_def split: if_splits)
      with find_Some_member [OF Some] show ?thesis
        by (simp add: keys_set)
    qed
  qed
qed

lemma chosen_key_None:
  assumes "chosen_key daily used tk = None" and "[] \<notin> fst ` set daily"
  shows "fst ` set daily \<subseteq> used"
proof -
  from assms(1) have "any_key daily used = None"
    by (simp add: chosen_key_def split: if_splits option.splits)
  with assms(2) show ?thesis
    by (rule any_key_None)
qed

lemma pick_one_cases:
  assumes "tk \<notin> set Object_prototype_names"
  shows "(\<exists>k item. chosen_key (dailyForecasts items) (snd st) tk = Some k
            \<and> (k, item) \<in> set (dailyForecasts items) \<and> k \<notin> snd st \<and> date_of item = k
            \<and> pick_one (dailyForecasts items) st tk = (fst st @ [Entry item], insert k (snd st)))
         \<or> (chosen_key (dailyForecasts items) (snd st) tk = None
            \<and> pick_one (dailyForecasts items) st tk = (fst st @ [Null_entry], snd st))"
proof (cases "chosen_key (dailyForecasts items) (snd st) tk")
  case None
  then show ?thesis
    by (simp add: pick_one_chosen)
next
  case (Some k)
  from chosen_key_Some [OF Some assms]
  have fresh: "k \<notin> snd st" and key: "k \<in> fst ` set (dailyForecasts items)"
    by simp_all
  from daily_key_entry [OF key] obtain item
    where "(k, item) \<in> set (dailyForecasts items)"
      and "get_property (dailyForecasts items) k = Entry item" and "date_of item = k"
    by blast
  with Some fresh show ?thesis
    by (auto simp: pick_one_chosen push_key_def)
qed

lemma picked_dates_snoc:
  "picked_dates (es @ [Entry item]) = picked_dates es @ [date_of item]"
  "picked_dates (es @ [Null_entry]) = picked_dates es"
  "picked_dates [] = []"
  by (simp_all add: picked_dates_def List.map_filter_def entry_date_def)

lemma pick_one_length:
  "length (fst (pick_one daily st tk)) = Suc (length (fst st))"
  by (simp add: pick_one_chosen push_key_def split: option.splits)

lemma pick_one_invariant:
  assumes inv: "pick_invariant (dailyForecasts items) st"
    and plain: "tk \<notin> set Object_prototype_names"
  shows "pick_invariant (dailyForecasts items) (pick_one (dailyForecasts items) st tk)"
proof -
  from inv have used: "set (picked_dates (fst st)) = snd st"
    and dist: "distinct (picked_dates (fst st))"
    and stored: "\<forall>e \<in> set (fst st). e = Null_entry
        \<or> (\<exists>item. e = Entry item \<and> (date_of item, item) \<in> set (dailyForecasts items))"
    and nulls: "[] \<notin> fst ` set (dailyForecasts items) \<Longrightarrow>
        \<forall>i < length (fst st). fst st ! i = Null_entry \<longrightarrow>
          fst ` set (dailyForecasts items) \<subseteq> set (picked_dates (take i (fst st)))"
    by (simp_all add: pick_invariant_def)
  from pick_one_cases [OF plain, of items st] show ?thesis
  proof (elim disjE exE conjE)
    fix k item
    assume mem: "(k, item) \<in> set (dailyForecasts items)" and fresh: "k \<notin> snd st"
      and date: "date_of item = k"
      and step: "pick_one (dailyForecasts items) st tk = (fst st @ [Entry item], insert k (snd st))"
    have "\<forall>i < Suc (length (fst st)). (fst st @ [Entry item]) ! i = Null_entry \<longrightarrow>
            fst ` set (dailyForecasts items) \<subseteq> set (picked_dates (take i (fst st @ [Entry item])))"
      if "[] \<notin> fst ` set (dailyForecasts items)"
      using nulls [OF that] by (auto simp: nth_append less_Suc_eq)
    with used dist stored mem fresh date show ?thesis
      by (auto simp: pick_invariant_def step picked_dates_snoc)
  next
    assume none: "chosen_key (dailyForecasts items) (snd st) tk = None"
      and step: "pick_one (dailyForecasts items) st tk = (fst st @ [Null_entry], snd st)"
    have "\<forall>i < Suc (length (fst st)). (fst st @ [Null_entry]) ! i = Null_entry \<longrightarrow>
            fst ` set (dailyForecasts items) \<subseteq> set (picked_dates (take i (fst st @ [Null_entry])))"
      if ne: "[] \<notin> fst ` set (dailyForecasts items)"
    proof -
      have "fst ` set (dailyForecasts items) \<subseteq> set (picked_dates (fst st))"
        using chosen_key_None [OF none ne] used by simp
      with nulls [OF ne] show ?thesis
        by (auto simp: nth_append less_Suc_eq)
    qed
    with used dist stored show ?thesis
      by (auto simp: pick_invariant_def step picked_dates_snoc)
  qed
qed

lemma pick_loop_invariant:
  assumes "\<forall>tk \<in> set tks. tk \<notin> set Object_prototype_names"
  shows "pick_invariant (dailyForecasts items) (pick_loop (dailyForecasts items) tks)
         \<and> length (fst (pick_loop (dailyForecasts items) tks)) = length tks"
  using assms
proof (induction tks rule: rev_induct)
  case Nil
  show ?case
    by (simp add: pick_loop_def pick_invariant_def picked_dates_snoc)
next
  case (snoc tk tks)
  then have "pick_invariant (dailyForecasts items) (pick_loop (dailyForecasts items) tks)"
    and "length (fst (pick_loop (dailyForecasts items) tks)) = length tks"
    and "tk \<notin> set Object_prototype_names"
    by simp_all
  then show ?case
    by (simp add: pick_loop_def pick_one_invariant pick_one_length)
qed

lemma picked_invariant:
  "pick_invariant (dailyForecasts items)
     (pick_loop (dailyForecasts items) (map toKey dayDates))"
  "length (picked dayDates items) = length dayDates"
  using pick_loop_invariant [of "map toKey dayDates" items]
  by (auto simp: toKey_plain picked_def)

lemma nonempty_dates_keys:
  "\<forall>item \<in> set items. date_of item \<noteq> [] \<Longrightarrow> [] \<notin> fst ` set (dailyForecasts items)"
  using daily_keys [of items] by auto

text \<open>
  Claim C10. For every raw forecast list (each timestamp starting with its date, so that
  no date portion is empty), the loop picks one entry per target date, the entries that
  are not \<open>null\<close> are stored entries of pairwise distinct grouped date keys, and a
  \<open>null\<close>, which becomes the placeholder of its slot, stands at a slot only when every
  grouped date key was already picked at an earlier slot.
\<close>

theorem picked_dates_distinct:
  assumes "\<forall>item \<in> set items. date_of item \<noteq> []"
  shows "length (picked dayDates items) = length dayDates
         \<and> distinct (picked_dates (picked dayDates items))
         \<and> (\<forall>e \<in> set (picked dayDates items).
               e = Null_entry
               \<or> (\<exists>item. e = Entry item \<and> (date_of item, item) \<in> set (dailyForecasts items)))
         \<and> (\<forall>i < length (picked dayDates items).
               picked dayDates items ! i = Null_entry \<longrightarrow>
                 fst ` set (dailyForecasts items)
                   \<subseteq> set (picked_dates (take i (picked dayDates items))))"
  using picked_invariant [where items = items and dayDates = dayDates] nonempty_dates_keys [OF assms]
  by (simp add: pick_invariant_def picked_def)

lemma pick_one_snoc: "\<exists>e u. pick_one daily st tk = (fst st @ [e], u)"
  by (simp add: pick_one_chosen push_key_def split: option.splits)

lemma picked_three_rounds:
  "\<exists>e0 e1 e2 u0 u1 u2.
     pick_one (dailyForecasts items) ([], {}) (toKey d0) = ([e0], u0)
     \<and> pick_one (dailyForecasts items) ([e0], u0) (toKey d1) = ([e0, e1], u1)
     \<and> pick_one (dailyForecasts items) ([e0, e1], u1) (toKey d2) = ([e0, e1, e2], u2)
     \<and> picked [d0, d1, d2] items = [e0, e1, e2]"
proof -
  obtain e0 u0 where r0: "pick_one (dailyForecasts items) ([], {}) (toKey d0) = ([e0], u0)"
    using pick_one_snoc [of "dailyForecasts items" "([], {})" "toKey d0"] by auto
  obtain e1 u1 where r1: "pick_one (dailyForecasts items) ([e0], u0) (toKey d1) = ([e0, e1], u1)"
    using pick_one_snoc [of "dailyForecasts items" "([e0], u0)" "toKey d1"] by auto
  obtain e2 u2
    where r2: "pick_one (dailyForecasts items) ([e0, e1], u1) (toKey d2) = ([e0, e1, e2], u2)"
    using pick_one_snoc [of "dailyForecasts items" "([e0, e1], u1)" "toKey d2"] by auto
  have "picked [d0, d1, d2] items = [e0, e1, e2]"
    by (simp add: picked_def pick_loop_def r0 r1 r2)
  with r0 r1 r2 show ?thesis
    by blast
qed

lemma dayLabel_three:
  "dayLabel t weekday_long [d0, d1, d2] 0 = t ''today''"
  "dayLabel t weekday_long [d0, d1, d2] (Suc 0) = t ''tomorrow''"
  "dayLabel t weekday_long [d0, d1, d2] 2
     = Some (case t ''dayAfterTomorrow'' of
               Some label \<Rightarrow> if label \<noteq> [] then label else weekday_long d2
             | None \<Rightarrow> weekday_long d2)"
  by (simp_all add: dayLabel_def split: option.splits)

lemma format_entry_Null:
  "format_entry t weekday_long ds (idx, Null_entry)
     = Inr \<lparr> day = dayLabel t weekday_long ds idx, temp = 0, condition = [], icon = ''01d'' \<rparr>"
  by (simp add: format_entry_def)

lemma format_entry_Entry:
  "weather item = w # ws \<Longrightarrow>
     format_entry t weekday_long ds (idx, Entry item)
       = Inr \<lparr> day = dayLabel t weekday_long ds idx, temp = Math_round (main_temp item),
               condition = weather_description w, icon = weather_icon w \<rparr>"
  by (simp add: format_entry_def)

lemma format_entry_ok:
  assumes "e = Null_entry \<or> (\<exists>item. e = Entry item \<and> weather item \<noteq> [])"
  shows "\<exists>w. format_entry t weekday_long ds (idx, e) = Inr w
              \<and> day w = dayLabel t weekday_long ds idx"
  using assms
proof
  assume "e = Null_entry"
  then show ?thesis
    by (simp add: format_entry_Null)
next
  assume "\<exists>item. e = Entry item \<and> weather item \<noteq> []"
  then obtain item w ws where "e = Entry item" and "weather item = w # ws"
    by (auto simp: neq_Nil_conv)
  then show ?thesis
    by (simp add: format_entry_Entry)
qed

lemma picked_entry_raw:
  assumes "e \<in> set (picked dayDates items)"
  shows "e = Null_entry
         \<or> (\<exists>item. e = Entry item \<and> item \<in> set items
                \<and> first_of_date items (date_of item) = Some item)"
proof -
  from picked_invariant(1) [of items dayDates] assms
  have "e = Null_entry
        \<or> (\<exists>item. e = Entry item \<and> (date_of item, item) \<in> set (dailyForecasts items))"
    by (simp add: pick_invariant_def picked_def)
  then show ?thesis
    using first_of_date_Some by (auto simp: daily_member)
qed

lemma formatted_three:
  assumes "\<forall>item \<in> set items. weather item \<noteq> []"
    and "picked [d0, d1, d2] items = [e0, e1, e2]"
  shows "\<exists>w0 w1 w2.
           formattedData t weekday_long [d0, d1, d2] items = Inr [w0, w1, w2]
           \<and> format_entry t weekday_long [d0, d1, d2] (0, e0) = Inr w0
           \<and> format_entry t weekday_long [d0, d1, d2] (1, e1) = Inr w1
           \<and> format_entry t weekday_long [d0, d1, d2] (2, e2) = Inr w2
           \<and> day w0 = t ''today'' \<and> day w1 = t ''tomorrow''
           \<and> day w2 = Some (case t ''dayAfterTomorrow'' of
                              Some label \<Rightarrow> if label \<noteq> [] then label else weekday_long d2
                            | None \<Rightarrow> weekday_long d2)"
proof -
  have ok: "e = Null_entry \<or> (\<exists>item. e = Entry item \<and> weather item \<noteq> [])"
    if "e \<in> set [e0, e1, e2]" for e
    using picked_entry_raw [of e "[d0, d1, d2]" items] that assms by auto
  obtain w0 where w0: "format_entry t weekday_long [d0, d1, d2] (0, e0) = Inr w0"
      "day w0 = dayLabel t weekday_long [d0, d1, d2] 0"
    using format_entry_ok [of e0 t weekday_long "[d0, d1, d2]" 0] ok [of e0] by auto
  obtain w1 where w1: "format_entry t weekday_long [d0, d1, d2] (1, e1) = Inr w1"
      "day w1 = dayLabel t weekday_long [d0, d1, d2] 1"
    using format_entry_ok [of e1 t weekday_long "[d0, d1, d2]" 1] ok [of e1] by auto
  obtain w2 where w2: "format_entry t weekday_long [d0, d1, d2] (2, e2) = Inr w2"
      "day w2 = dayLabel t weekday_long [d0, d1, d2] 2"
    using format_entry_ok [of e2 t weekday_long "[d0, d1, d2]" 2] ok [of e2] by auto
  have "formattedData t weekday_long [d0, d1, d2] items = Inr [w0, w1, w2]"
    using w0(1) w1(1) w2(1) by (simp add: formattedData_def assms(2) numeral_2_eq_2)
  with w0 w1 w2 show ?thesis
    using dayLabel_three [of t weekday_long d0 d1 d2] by auto
qed

lemma fetch_success:
  assumes "WEATHER_API_KEY \<noteq> []"
    and "formattedData t weekday_long [d0, d1, d2] items = Inr [w0, w1, w2]"
  shows "fetchWeatherData WEATHER_API_KEY t weekday_long (d0, d1, d2) (HttpSuccess (Inr items)) st
           = st \<lparr> weatherData := [w0, w1, w2], loading := False, error := None \<rparr>"
  using assms by (simp add: fetchWeatherData_def)

lemma wf_keys:
  assumes "list_all wf_item items"
  shows "fst ` set (dailyForecasts items) = date_of ` set items"
    and "[] \<notin> fst ` set (dailyForecasts items)"
    and "\<forall>item \<in> set items. weather item \<noteq> []"
proof -
  from assms have wf: "is_date_key (date_of item) \<and> weather item \<noteq> []"
    if "item \<in> set items" for item
    using that by (simp add: list_all_iff wf_item_def)
  then have plain: "date_of item \<noteq> [] \<and> date_of item \<notin> set Object_prototype_names"
    if "item \<in> set items" for item
    using that date_key_plain [of "date_of item"] by blast
  have keys: "fst ` set (dailyForecasts items)
                = {k. k \<notin> set Object_prototype_names \<and> k \<in> date_of ` set items}"
    using daily_keys [of items] by simp
  from plain show "fst ` set (dailyForecasts items) = date_of ` set items"
    unfolding keys by auto
  from plain show "[] \<notin> fst ` set (dailyForecasts items)"
    unfolding keys by force
  from wf show "\<forall>item \<in> set items. weather item \<noteq> []"
    by blast
qed

lemma picked_dates_length: "length (picked_dates es) \<le> length es"
  by (simp add: picked_dates_def List.map_filter_def)

lemma first_round_exact:
  assumes "first_of_date items (toKey d) = Some item"
  shows "pick_one (dailyForecasts items) ([], {}) (toKey d) = ([Entry item], {toKey d})"
proof -
  have "get_property (dailyForecasts items) (toKey d) = Entry item"
    using assms by (simp add: get_property_plain toKey_plain)
  then show ?thesis
    by (simp add: pick_one_def push_key_def)
qed

lemma no_null_when_enough_dates:
  assumes wf: "list_all wf_item items"
    and enough: "length dayDates \<le> card (date_of ` set items)"
    and mem: "e \<in> set (picked dayDates items)"
  shows "e \<noteq> Null_entry"
proof
  assume null: "e = Null_entry"
  from mem obtain i where i: "i < length (picked dayDates items)"
    and at: "picked dayDates items ! i = e"
    by (auto simp: in_set_conv_nth)
  from picked_invariant(1) [of items dayDates] wf_keys(2) [OF wf] i at null
  have "fst ` set (dailyForecasts items)
          \<subseteq> set (picked_dates (take i (picked dayDates items)))"
    by (simp add: pick_invariant_def picked_def)
  then have "card (fst ` set (dailyForecasts items))
               \<le> card (set (picked_dates (take i (picked dayDates items))))"
    by (intro card_mono) simp_all
  also have "\<dots> \<le> length (picked_dates (take i (picked dayDates items)))"
    by (rule card_length)
  also have "\<dots> \<le> length (take i (picked dayDates items))"
    by (rule picked_dates_length)
  also have "\<dots> < length dayDates"
    using i by (simp add: picked_invariant(2))
  finally show False
    using enough by (simp add: wf_keys(1) [OF wf])
qed

text \<open>
  Claim C7. On the empty raw forecast list the fetch ends without an error and stores
  exactly three placeholder entries, labelled for today, tomorrow and the day after
  tomorrow, each with temperature 0, the empty condition and the default icon \<open>01d\<close>.
\<close>

theorem forecast_empty_list:
  assumes "WEATHER_API_KEY \<noteq> []"
  shows "fetchWeatherData WEATHER_API_KEY t weekday_long (today, tomorrow, dayAfter)
           (HttpSuccess (Inr [])) st
         = st \<lparr> weatherData :=
                  [\<lparr> day = t ''today'', temp = 0, condition = [], icon = ''01d'' \<rparr>,
                   \<lparr> day = t ''tomorrow'', temp = 0, condition = [], icon = ''01d'' \<rparr>,
                   \<lparr> day = Some (case t ''dayAfterTomorrow'' of
                                   Some label \<Rightarrow>
                                     if label \<noteq> [] then label else weekday_long dayAfter
                                 | None \<Rightarrow> weekday_long dayAfter),
                     temp = 0, condition = [], icon = ''01d'' \<rparr>],
                loading := False, error := None \<rparr>"
proof -
  obtain e0 e1 e2 where es: "picked [today, tomorrow, dayAfter] [] = [e0, e1, e2]"
    using picked_three_rounds [of "[]" today tomorrow dayAfter] by blast
  have "e = Null_entry" if "e \<in> set [e0, e1, e2]" for e
    using picked_entry_raw [of e "[today, tomorrow, dayAfter]" "[]"] that es by auto
  then have nulls: "e0 = Null_entry" "e1 = Null_entry" "e2 = Null_entry"
    by simp_all
  have "formattedData t weekday_long [today, tomorrow, dayAfter] []
          = Inr [\<lparr> day = t ''today'', temp = 0, condition = [], icon = ''01d'' \<rparr>,
                 \<lparr> day = t ''tomorrow'', temp = 0, condition = [], icon = ''01d'' \<rparr>,
                 \<lparr> day = Some (case t ''dayAfterTomorrow'' of
                                 Some label \<Rightarrow>
                                   if label \<noteq> [] then label else weekday_long dayAfter
                               | None \<Rightarrow> weekday_long dayAfter),
                   temp = 0, condition = [], icon = ''01d'' \<rparr>]"
    using dayLabel_three [of t weekday_long today tomorrow dayAfter]
    by (simp add: formattedData_def es nulls format_entry_Null numeral_2_eq_2)
  with assms show ?thesis
    by (rule fetch_success)
qed

text \<open>
  Claim C5. On a raw forecast list of well-formed entries that spans at least three
  distinct calendar dates, today's among them, the fetch ends without an error and stores
  exactly three entries, labelled in this order with the strings for today, for tomorrow
  and for the day after tomorrow (the long weekday name when that string is missing or
  empty). None of the three is a placeholder, and the first is made from the first raw
  entry of today's date.
\<close>

theorem forecast_three_days:
  assumes key: "WEATHER_API_KEY \<noteq> []"
    and wf: "list_all wf_item items"
    and present: "toKey today \<in> date_of ` set items"
    and three: "3 \<le> card (date_of ` set items)"
  shows "\<exists>w0 w1 w2 i0 i1 i2.
           fetchWeatherData WEATHER_API_KEY t weekday_long (today, tomorrow, dayAfter)
               (HttpSuccess (Inr items)) st
             = st \<lparr> weatherData := [w0, w1, w2], loading := False, error := None \<rparr>
           \<and> day w0 = t ''today''
           \<and> day w1 = t ''tomorrow''
           \<and> day w2 = Some (case t ''dayAfterTomorrow'' of
                              Some label \<Rightarrow>
                                if label \<noteq> [] then label else weekday_long dayAfter
                            | None \<Rightarrow> weekday_long dayAfter)
           \<and> picked [today, tomorrow, dayAfter] items = [Entry i0, Entry i1, Entry i2]
           \<and> first_of_date items (toKey today) = Some i0"
proof -
  from present obtain i0 where i0: "first_of_date items (toKey today) = Some i0"
    using first_of_date_None [of items "toKey today"] by (cases "first_of_date items (toKey today)") auto
  obtain e0 e1 e2 u0 where r0: "pick_one (dailyForecasts items) ([], {}) (toKey today) = ([e0], u0)"
    and es: "picked [today, tomorrow, dayAfter] items = [e0, e1, e2]"
    using picked_three_rounds [of items today tomorrow dayAfter] by blast
  from r0 first_round_exact [OF i0] have e0: "e0 = Entry i0"
    by simp
  have entry: "\<exists>item. e = Entry item" if "e \<in> set [e0, e1, e2]" for e
  proof -
    from that es have mem: "e \<in> set (picked [today, tomorrow, dayAfter] items)"
      by simp
    have "e \<noteq> Null_entry"
      using wf _ mem by (rule no_null_when_enough_dates) (use three in simp)
    with picked_entry_raw [OF mem] show ?thesis
      by blast
  qed
  obtain i1 where e1: "e1 = Entry i1"
    using entry [of e1] by auto
  obtain i2 where e2: "e2 = Entry i2"
    using entry [of e2] by auto
  from formatted_three [OF wf_keys(3) [OF wf] es, of t weekday_long]
  obtain w0 w1 w2
    where "formattedData t weekday_long [today, tomorrow, dayAfter] items = Inr [w0, w1, w2]"
      and labels: "day w0 = t ''today''" "day w1 = t ''tomorrow''"
        "day w2 = Some (case t ''dayAfterTomorrow'' of
                          Some label \<Rightarrow> if label \<noteq> [] then label else weekday_long dayAfter
                        | None \<Rightarrow> weekday_long dayAfter)"
    by blast
  with key have "fetchWeatherData WEATHER_API_KEY t weekday_long (today, tomorrow, dayAfter)
                   (HttpSuccess (Inr items)) st
                 = st \<lparr> weatherData := [w0, w1, w2], loading := False, error := None \<rparr>"
    by (intro fetch_success)
  with labels es e0 e1 e2 i0 show ?thesis
    by blast
qed

lemma find_sorted_least:
  "sorted xs \<Longrightarrow> find P xs = Some x \<Longrightarrow> \<forall>y \<in> set xs. P y \<longrightarrow> x \<le> y"
  by (induction xs) (auto split: if_splits)

lemma find_exists: "\<exists>y \<in> set xs. P y \<Longrightarrow> \<exists>x. find P xs = Some x"
  by (cases "find P xs") (auto simp: find_None_iff)

lemma first_round_substitute:
  assumes wf: "list_all wf_item items"
    and nonempty: "items \<noteq> []"
    and absent: "toKey d \<notin> date_of ` set items"
  shows "\<exists>c. pick_one (dailyForecasts items) ([], {}) (toKey d)
               = ([get_property (dailyForecasts items) c], {c})
             \<and> c \<in> date_of ` set items
             \<and> (if \<exists>item \<in> set items. toKey d \<le> date_of item
                 then toKey d \<le> c
                      \<and> (\<forall>item \<in> set items. toKey d \<le> date_of item \<longrightarrow> c \<le> date_of item)
                 else (\<forall>item \<in> set items. c \<le> date_of item))"
proof -
  let ?D = "dailyForecasts items"
  let ?K = "availableKeys ?D"
  have K: "set ?K = date_of ` set items"
    by (simp add: keys_set wf_keys(1) [OF wf])
  have no_empty: "[] \<notin> set ?K"
    by (simp add: keys_set wf_keys(2) [OF wf])
  have exact: "get_property ?D (toKey d) = Null_entry"
    using absent by (simp add: get_property_plain toKey_plain first_of_date_None [symmetric])
  show ?thesis
  proof (cases "\<exists>item \<in> set items. toKey d \<le> date_of item")
    case True
    then have "\<exists>y \<in> set ?K. toKey d \<le> y \<and> y \<notin> {}"
      unfolding K by auto
    then obtain c where c: "find (\<lambda>k. toKey d \<le> k \<and> k \<notin> {}) ?K = Some c"
      using find_exists [of ?K "\<lambda>k. toKey d \<le> k \<and> k \<notin> {}"] by blast
    from find_Some_member [OF c] have mem: "c \<in> set ?K" and above: "toKey d \<le> c"
      by simp_all
    from mem no_empty have "c \<noteq> []"
      by auto
    with exact c have step: "pick_one ?D ([], {}) (toKey d) = ([get_property ?D c], {c})"
      by (simp add: pick_one_def push_key_def)
    from find_sorted_least [OF keys_sorted c]
    have "\<forall>item \<in> set items. toKey d \<le> date_of item \<longrightarrow> c \<le> date_of item"
      unfolding K by auto
    with True step mem above show ?thesis
      unfolding K by auto
  next
    case False
    then have none: "find (\<lambda>k. toKey d \<le> k \<and> k \<notin> {}) ?K = None"
      unfolding find_None_iff K by auto
    from nonempty have "\<exists>y \<in> set ?K. y \<notin> {}"
      unfolding K by (cases items) auto
    then obtain c where c: "find (\<lambda>k. k \<notin> {}) ?K = Some c"
      using find_exists [of ?K "\<lambda>k. k \<notin> {}"] by blast
    from find_Some_member [OF c] have mem: "c \<in> set ?K"
      by simp
    from mem no_empty have "c \<noteq> []"
      by auto
    with exact none c have step: "pick_one ?D ([], {}) (toKey d) = ([get_property ?D c], {c})"
      by (simp add: pick_one_def pick_any_def push_key_def)
    from find_sorted_least [OF keys_sorted c]
    have "\<forall>item \<in> set items. c \<le> date_of item"
      unfolding K by auto
    with False step mem show ?thesis
      unfolding K by auto
  qed
qed

text \<open>
  Claim C6. On a non-empty raw forecast list of well-formed entries in which today's key
  is absent, the fetch ends without an error and stores three entries. The slot for today
  is filled from the first raw entry of a grouped date: the smallest grouped date key that
  is at least today's key when there is one, and otherwise the smallest grouped date key
  of all.
\<close>

theorem forecast_today_missing:
  assumes key: "WEATHER_API_KEY \<noteq> []"
    and wf: "list_all wf_item items"
    and nonempty: "items \<noteq> []"
    and absent: "toKey today \<notin> date_of ` set items"
  shows "\<exists>w0 w1 w2 i0 w ws rest.
           fetchWeatherData WEATHER_API_KEY t weekday_long (today, tomorrow, dayAfter)
               (HttpSuccess (Inr items)) st
             = st \<lparr> weatherData := [w0, w1, w2], loading := False, error := None \<rparr>
           \<and> picked [today, tomorrow, dayAfter] items = Entry i0 # rest
           \<and> first_of_date items (date_of i0) = Some i0
           \<and> weather i0 = w # ws
           \<and> w0 = \<lparr> day = t ''today'', temp = Math_round (main_temp i0),
                     condition = weather_description w, icon = weather_icon w \<rparr>
           \<and> (if \<exists>item \<in> set items. toKey today \<le> date_of item
               then toKey today \<le> date_of i0
                    \<and> (\<forall>item \<in> set items. toKey today \<le> date_of item
                           \<longrightarrow> date_of i0 \<le> date_of item)
               else (\<forall>item \<in> set items. date_of i0 \<le> date_of item))"
proof -
  let ?D = "dailyForecasts items"
  from first_round_substitute [OF wf nonempty absent] obtain c
    where step: "pick_one ?D ([], {}) (toKey today) = ([get_property ?D c], {c})"
      and mem: "c \<in> date_of ` set items"
      and least: "if \<exists>item \<in> set items. toKey today \<le> date_of item
                  then toKey today \<le> c
                       \<and> (\<forall>item \<in> set items. toKey today \<le> date_of item \<longrightarrow> c \<le> date_of item)
                  else (\<forall>item \<in> set items. c \<le> date_of item)"
    by blast
  from mem have "c \<in> fst ` set ?D"
    by (simp add: wf_keys(1) [OF wf])
  from daily_key_entry [OF this] obtain i0
    where stored: "(c, i0) \<in> set ?D" and got: "get_property ?D c = Entry i0"
      and date: "date_of i0 = c"
    by blast
  from stored have first: "first_of_date items c = Some i0"
    by (simp add: daily_member)
  then have "i0 \<in> set items"
    by (simp add: first_of_date_Some)
  with wf_keys(3) [OF wf] obtain w ws where w: "weather i0 = w # ws"
    by (auto simp: neq_Nil_conv)
  obtain e0 e1 e2 u0 where r0: "pick_one ?D ([], {}) (toKey today) = ([e0], u0)"
    and es: "picked [today, tomorrow, dayAfter] items = [e0, e1, e2]"
    using picked_three_rounds [of items today tomorrow dayAfter] by blast
  from r0 step got have e0: "e0 = Entry i0"
    by simp
  from formatted_three [OF wf_keys(3) [OF wf] es, of t weekday_long]
  obtain w0 w1 w2
    where all: "formattedData t weekday_long [today, tomorrow, dayAfter] items = Inr [w0, w1, w2]"
      and f0: "format_entry t weekday_long [today, tomorrow, dayAfter] (0, e0) = Inr w0"
    by blast
  from f0 have w0: "w0 = \<lparr> day = t ''today'', temp = Math_round (main_temp i0),
                            condition = weather_description w, icon = weather_icon w \<rparr>"
    by (simp add: e0 format_entry_Entry [OF w] dayLabel_three)
  from key all have "fetchWeatherData WEATHER_API_KEY t weekday_long (today, tomorrow, dayAfter)
                       (HttpSuccess (Inr items)) st
                     = st \<lparr> weatherData := [w0, w1, w2], loading := False, error := None \<rparr>"
    by (rule fetch_success)
  moreover have "picked [today, tomorrow, dayAfter] items = Entry i0 # [e1, e2]"
    by (simp add: es e0)
  moreover have "first_of_date items (date_of i0) = Some i0"
    by (simp add: date first)
  ultimately show ?thesis
    using w w0 least unfolding date [symmetric] by blast
qed

subsection \<open>The sample lists\<close>

lemma sample_keys:
  "toKey sample_today = ''2025-01-15''"
  "toKey sample_tomorrow = ''2025-01-16''"
  "toKey sample_dayAfter = ''2025-01-17''"
  by (simp_all add: toKey_def pad_def decimal.simps digit_char_def
        sample_today_def sample_tomorrow_def sample_dayAfter_def)

lemma three_day_dates:
  "map date_of three_day_list = [''2025-01-15'', ''2025-01-15'', ''2025-01-16'', ''2025-01-17'']"
  by (simp add: three_day_list_def raw_entry_def date_of_def)

lemma late_dates:
  "map date_of late_list = [''2025-01-17'', ''2025-01-16'', ''2025-01-16'']"
  by (simp add: late_list_def raw_entry_def date_of_def)

lemma date_keys_ok:
  "is_date_key ''2025-01-15''" "is_date_key ''2025-01-16''" "is_date_key ''2025-01-17''"
  by (simp_all add: is_date_key_def is_digit_def)

lemma three_day_wf: "list_all wf_item three_day_list"
proof -
  have "list_all is_date_key (map date_of three_day_list)"
    unfolding three_day_dates by (simp add: date_keys_ok)
  moreover have "list_all (\<lambda>item. weather item \<noteq> []) three_day_list"
    by (simp add: three_day_list_def raw_entry_def)
  ultimately show ?thesis
    by (simp add: list_all_iff wf_item_def)
qed

lemma late_wf: "list_all wf_item late_list"
proof -
  have "list_all is_date_key (map date_of late_list)"
    unfolding late_dates by (simp add: date_keys_ok)
  moreover have "list_all (\<lambda>item. weather item \<noteq> []) late_list"
    by (simp add: late_list_def raw_entry_def)
  ultimately show ?thesis
    by (simp add: list_all_iff wf_item_def)
qed

lemma three_day_date_set:
  "date_of ` set three_day_list = {''2025-01-15'', ''2025-01-16'', ''2025-01-17''}"
proof -
  have "date_of ` set three_day_list = set (map date_of three_day_list)"
    by simp
  then show ?thesis
    unfolding three_day_dates by auto
qed

lemma late_date_set: "date_of ` set late_list = {''2025-01-16'', ''2025-01-17''}"
proof -
  have "date_of ` set late_list = set (map date_of late_list)"
    by simp
  then show ?thesis
    unfolding late_dates by auto
qed

lemma late_picked:
  "picked [sample_today, sample_tomorrow, sample_dayAfter] late_list =
     [Entry (raw_entry ''2025-01-16 00:00:00'' (187 / 10) ''light rain'' ''10n''),
      Entry (raw_entry ''2025-01-17 00:00:00'' (-3 / 4) ''snow'' ''13n''),
      Null_entry]"
  by code_simp

lemma three_day_result:
  "fetchWeatherData sample_key english_table sample_weekday
       (sample_today, sample_tomorrow, sample_dayAfter) (HttpSuccess (Inr three_day_list))
       initial_weather
     = \<lparr> weatherData =
           [\<lparr> day = Some ''Today'', temp = 22, condition = ''scattered clouds'', icon = ''03d'' \<rparr>,
            \<lparr> day = Some ''Tomorrow'', temp = 19, condition = ''light rain'', icon = ''10n'' \<rparr>,
            \<lparr> day = Some ''Day After Tomorrow'', temp = - 1, condition = ''snow'', icon = ''13n'' \<rparr>],
         loading = False, error = None \<rparr>"
  by code_simp

lemma rounded_sample: "Math_round (187 / 10) = 19"
  by code_simp

lemma english_labels:
  "english_table ''today'' = Some ''Today''"
  "english_table ''tomorrow'' = Some ''Tomorrow''"
  "english_table ''dayAfterTomorrow'' = Some ''Day After Tomorrow''"
  by (simp_all add: english_table_def)

theorem forecast_empty_list_witness:
  "sample_key \<noteq> []
   \<and> fetchWeatherData sample_key english_table sample_weekday
         (sample_today, sample_tomorrow, sample_dayAfter) (HttpSuccess (Inr [])) initial_weather
       = \<lparr> weatherData =
             [\<lparr> day = Some ''Today'', temp = 0, condition = [], icon = ''01d'' \<rparr>,
              \<lparr> day = Some ''Tomorrow'', temp = 0, condition = [], icon = ''01d'' \<rparr>,
              \<lparr> day = Some ''Day After Tomorrow'', temp = 0, condition = [], icon = ''01d'' \<rparr>],
           loading = False, error = None \<rparr>"
proof -
  have key: "sample_key \<noteq> []"
    by (simp add: sample_key_def)
  from forecast_empty_list [OF key, of english_table sample_weekday sample_today
      sample_tomorrow sample_dayAfter initial_weather] key
  show ?thesis
    by (simp add: english_labels initial_weather_def)
qed

theorem forecast_three_days_witness:
  "sample_key \<noteq> []
   \<and> list_all wf_item three_day_list
   \<and> toKey sample_today \<in> date_of ` set three_day_list
   \<and> 3 \<le> card (date_of ` set three_day_list)
   \<and> map day (weatherData (fetchWeatherData sample_key english_table sample_weekday
         (sample_today, sample_tomorrow, sample_dayAfter) (HttpSuccess (Inr three_day_list))
         initial_weather))
       = [Some ''Today'', Some ''Tomorrow'', Some ''Day After Tomorrow'']
   \<and> error (fetchWeatherData sample_key english_table sample_weekday
         (sample_today, sample_tomorrow, sample_dayAfter) (HttpSuccess (Inr three_day_list))
         initial_weather) = None"
proof -
  have key: "sample_key \<noteq> []"
    by (simp add: sample_key_def)
  have present: "toKey sample_today \<in> date_of ` set three_day_list"
    by (simp add: sample_keys three_day_date_set)
  have three: "3 \<le> card (date_of ` set three_day_list)"
    by (simp add: three_day_date_set)
  from forecast_three_days [OF key three_day_wf present three, of english_table sample_weekday
      sample_tomorrow sample_dayAfter initial_weather]
  obtain w0 w1 w2
    where "fetchWeatherData sample_key english_table sample_weekday
             (sample_today, sample_tomorrow, sample_dayAfter) (HttpSuccess (Inr three_day_list))
             initial_weather
           = initial_weather \<lparr> weatherData := [w0, w1, w2], loading := False, error := None \<rparr>"
      and "day w0 = Some ''Today''" and "day w1 = Some ''Tomorrow''"
      and "day w2 = Some ''Day After Tomorrow''"
    by (auto simp: english_labels)
  with key three_day_wf present three show ?thesis
    by simp
qed

theorem forecast_today_missing_witness:
  "sample_key \<noteq> []
   \<and> list_all wf_item late_list
   \<and> late_list \<noteq> []
   \<and> toKey sample_today \<notin> date_of ` set late_list
   \<and> length (weatherData (fetchWeatherData sample_key english_table sample_weekday
         (sample_today, sample_tomorrow, sample_dayAfter) (HttpSuccess (Inr late_list))
         initial_weather)) = 3
   \<and> hd (weatherData (fetchWeatherData sample_key english_table sample_weekday
         (sample_today, sample_tomorrow, sample_dayAfter) (HttpSuccess (Inr late_list))
         initial_weather))
       = \<lparr> day = Some ''Today'', temp = 19, condition = ''light rain'', icon = ''10n'' \<rparr>"
proof -
  have key: "sample_key \<noteq> []"
    by (simp add: sample_key_def)
  have nonempty: "late_list \<noteq> []"
    by (simp add: late_list_def)
  have absent: "toKey sample_today \<notin> date_of ` set late_list"
    by (simp add: sample_keys late_date_set)
  from forecast_today_missing [OF key late_wf nonempty absent, of english_table sample_weekday
      sample_tomorrow sample_dayAfter initial_weather]
  obtain w0 w1 w2 i0 w ws rest
    where result: "fetchWeatherData sample_key english_table sample_weekday
             (sample_today, sample_tomorrow, sample_dayAfter) (HttpSuccess (Inr late_list))
             initial_weather
           = initial_weather \<lparr> weatherData := [w0, w1, w2], loading := False, error := None \<rparr>"
      and first: "picked [sample_today, sample_tomorrow, sample_dayAfter] late_list = Entry i0 # rest"
      and cond: "weather i0 = w # ws"
      and w0: "w0 = \<lparr> day = english_table ''today'', temp = Math_round (main_temp i0),
                       condition = weather_description w, icon = weather_icon w \<rparr>"
    by blast
  from first have i0: "i0 = raw_entry ''2025-01-16 00:00:00'' (187 / 10) ''light rain'' ''10n''"
    by (simp add: late_picked)
  from cond have "w = \<lparr> weather_description = ''light rain'', weather_icon = ''10n'' \<rparr>"
    by (simp add: i0 raw_entry_def)
  with w0 have "w0 = \<lparr> day = Some ''Today'', temp = 19, condition = ''light rain'',
                        icon = ''10n'' \<rparr>"
    by (simp add: i0 raw_entry_def english_labels rounded_sample)
  with result key late_wf nonempty absent show ?thesis
    by simp
qed

theorem picked_dates_distinct_witness:
  "list_all (\<lambda>item. date_of item \<noteq> []) late_list
   \<and> length (picked [sample_today, sample_tomorrow, sample_dayAfter] late_list) = 3
   \<and> distinct (picked_dates (picked [sample_today, sample_tomorrow, sample_dayAfter] late_list))
   \<and> picked [sample_today, sample_tomorrow, sample_dayAfter] late_list ! 2 = Null_entry
   \<and> fst ` set (dailyForecasts late_list)
       \<subseteq> set (picked_dates
               (take 2 (picked [sample_today, sample_tomorrow, sample_dayAfter] late_list)))"
proof -
  have dates: "list_all (\<lambda>item. date_of item \<noteq> []) late_list"
    by (simp add: late_list_def raw_entry_def date_of_def)
  then have hyp: "\<forall>item \<in> set late_list. date_of item \<noteq> []"
    by (simp add: list_all_iff)
  have null: "picked [sample_today, sample_tomorrow, sample_dayAfter] late_list ! 2 = Null_entry"
    by (simp add: late_picked)
  from picked_dates_distinct [OF hyp, of "[sample_today, sample_tomorrow, sample_dayAfter]"]
    null dates
  show ?thesis
    by simp
qed

section \<open>Properties of the camera\<close>







lemma fold_stop:
  "fold stop tracks store = (\<lambda>track. if track \<in> set tracks then ended else store track)"
  by (induction tracks arbitrary: store) (auto simp: stop_def fun_eq_iff)

lemma fold_stop_twice: "fold stop tracks (fold stop tracks store) = fold stop tracks store"
  by (simp add: fold_stop fun_eq_iff)

text \<open>
  Claim C9. \<open>closeCamera\<close> on a null stream performs no track operation, and on a
  stream whose tracks have all ended it leaves every track as it was; in both cases it
  only clears the stream and closes the camera view. No step of it can throw. Calling it
  twice in a row gives the state of calling it once, whether the second call still holds
  the stream that the first one captured or sees the cleared stream.
\<close>

theorem closeCamera_idempotent:
  "closeCamera None (store, st) = (store, st \<lparr> stream := None, isCameraOpen := False \<rparr>)
   \<and> ((\<forall>track \<in> set tracks. store track = ended)
       \<longrightarrow> closeCamera (Some tracks) (store, st)
             = (store, st \<lparr> stream := None, isCameraOpen := False \<rparr>))
   \<and> closeCamera captured (closeCamera captured (store, st)) = closeCamera captured (store, st)
   \<and> closeCamera None (closeCamera captured (store, st)) = closeCamera captured (store, st)"
proof (intro conjI impI)
  show "closeCamera None (store, st) = (store, st \<lparr> stream := None, isCameraOpen := False \<rparr>)"
    by (simp add: closeCamera_def)
next
  assume "\<forall>track \<in> set tracks. store track = ended"
  then have "fold stop tracks store = store"
    by (auto simp: fold_stop fun_eq_iff)
  then show "closeCamera (Some tracks) (store, st)
               = (store, st \<lparr> stream := None, isCameraOpen := False \<rparr>)"
    by (simp add: closeCamera_def)
next
  show "closeCamera captured (closeCamera captured (store, st)) = closeCamera captured (store, st)"
    by (cases captured) (simp_all add: closeCamera_def fold_stop_twice)
next
  show "closeCamera None (closeCamera captured (store, st)) = closeCamera captured (store, st)"
    by (simp add: closeCamera_def)
qed

theorem closeCamera_idempotent_witness:
  "closeCamera None (\<lambda>track. live, closed_detector) = (\<lambda>track. live, closed_detector)
   \<and> list_all (\<lambda>track. (\<lambda>track. ended) track = ended) [0, 1]
   \<and> closeCamera (Some [0, 1]) (\<lambda>track. ended, open_detector)
       = (\<lambda>track. ended, open_detector \<lparr> stream := None, isCameraOpen := False \<rparr>)
   \<and> closeCamera (Some [0, 1]) (closeCamera (Some [0, 1]) (\<lambda>track. live, open_detector))
       = closeCamera (Some [0, 1]) (\<lambda>track. live, open_detector)
   \<and> closeCamera None (closeCamera (Some [0, 1]) (\<lambda>track. live, open_detector))
       = closeCamera (Some [0, 1]) (\<lambda>track. live, open_detector)"
  using closeCamera_idempotent [of "\<lambda>track. live" closed_detector "[]" None]
    closeCamera_idempotent [of "\<lambda>track. ended" open_detector "[0, 1]" "Some [0, 1]"]
    closeCamera_idempotent [of "\<lambda>track. live" open_detector "[0, 1]" "Some [0, 1]"]
  by (simp add: closed_detector_def)
end
